theory Spec2Isabelle
  imports Complex_Main "HOL-Library.Multiset" "HOL-Library.Log_Nat"
begin

section \<open>Data model of the explorer grid\<close>

text \<open>
  Pixel coordinates are JavaScript numbers, that is doubles. A finite double is a
  rational, so a coordinate is a \<open>rat\<close>; comparisons, \<open>Math.abs\<close>, \<open>Math.ceil\<close>
  and \<open>Math.round\<close> are exact on doubles, while a sum, a difference or a quotient
  is the exact result rounded to a double. That rounding is the parameter \<open>fl\<close>
  of the environment below; results are taken to stay in the finite range.
  Indices are JavaScript numbers holding integers and may become negative
  (\<open>newIndex - 1\<close>), so they are \<open>int\<close>.
\<close>

type_synonym px = rat

record rect =
  rect_top :: px
  rect_bottom :: px
  rect_left :: px
  rect_right :: px

text \<open>
  A DOM element carrying the \<open>data-selectable\<close> attributes of a grid item.
  \<open>isConnected\<close> is what \<open>document.contains(el)\<close> answers and
  \<open>boundingClientRect\<close> what \<open>el.getBoundingClientRect()\<close> answers.
\<close>

record element =
  data_selectable_id :: "string option"
  data_selectable_index :: "int option"
  isConnected :: bool
  boundingClientRect :: rect

text \<open>The id of a grid item is \<open>string | number\<close>.\<close>

datatype grid_id = IdString string | IdNumber int

text \<open>What \<open>grid.getItem(index)\<close> of the virtual grid returns.\<close>

record 'a grid_item =
  gi_index :: int
  gi_id :: grid_id
  gi_data :: "'a option"
  gi_row :: int
  gi_column :: int
  gi_rect :: rect

text \<open>
  Everything a handler of the \<open>Grid\<close> component reads from its render: the explorer
  context, the explorer view context, the virtual grid and the document.
  The virtual grid (\<open>useGrid\<close>), \<open>uniqueId\<close> and \<open>document.querySelector\<close>
  are not part of the component, so they are parameters, and so is the rounding
  \<open>fl\<close> of the arithmetic on numbers.
\<close>

record 'a view_env =
  selectable :: bool
  allowMultiSelect :: bool
  isAnyDialogOpen :: bool
  items :: "'a list option"
  uniqueId :: "'a \<Rightarrow> string"
  grid_getItem :: "int \<Rightarrow> 'a grid_item option"
  grid_columnCount :: int
  grid_gap_y :: px
  grid_virtualItemSize_height :: px
  querySelector :: "string \<Rightarrow> element option"
  realOS_windows :: bool
  parent_Ephemeral :: bool
  viewRectTop :: px
  fl :: "px \<Rightarrow> px"

text \<open>
  The mutable state the component works on: the selection of the explorer context
  (\<open>explorer.selectedItems\<close>, a JavaScript \<open>Set\<close>, kept as the list of its members
  in insertion order), the selected targets of the drag-select widget (\<open>None\<close> while
  the widget is not rendered and \<open>selecto.current\<close> is null), the refs of the
  component, and the fields of the explorer store and of the quick-preview store.
\<close>

record 'a grid_state =
  selectedItems :: "'a list"
  selecto :: "element list option"
  selectoUnselected :: "string set"
  selectoFirstColumn :: "int option"
  selectoLastColumn :: "int option"
  activeItem :: "'a option"
  dragFromThumbnail :: bool
  isDragSelecting :: bool
  quickPreviewOpen :: bool
  quickPreviewItemIndex :: nat

section \<open>Selection model\<close>

definition set_add :: "'a \<Rightarrow> 'a list \<Rightarrow> 'a list" where
  \<comment> \<open>\<open>Set.prototype.add\<close>: a member already present keeps its place.\<close>
  "set_add x xs = (if x \<in> set xs then xs else xs @ [x])"

definition js_set_of :: "'a list \<Rightarrow> 'a list" where
  \<comment> \<open>\<open>new Set(array)\<close>, as the list of its members in insertion order.\<close>
  "js_set_of xs = foldl (\<lambda>acc x. set_add x acc) [] xs"

definition addSelectedItem :: "'a view_env \<Rightarrow> 'a \<Rightarrow> 'a grid_state \<Rightarrow> 'a grid_state" where
  \<comment> \<open>Modelled from the spec: \<open>explorer.addSelectedItem\<close> of the explorer context is
      not among the sources. Section 4.1: adding a present member is a no-op, and
      with multi-select disabled \<open>add\<close> first clears the set.\<close>
  "addSelectedItem env item s =
     (if allowMultiSelect env
      then s\<lparr>selectedItems := set_add item (selectedItems s)\<rparr>
      else s\<lparr>selectedItems := [item]\<rparr>)"

definition removeSelectedItem :: "'a \<Rightarrow> 'a grid_state \<Rightarrow> 'a grid_state" where
  \<comment> \<open>Modelled from the spec: \<open>explorer.removeSelectedItem\<close> is not among the sources.
      Section 4.1: removing an absent member is a no-op.\<close>
  "removeSelectedItem item s = s\<lparr>selectedItems := removeAll item (selectedItems s)\<rparr>"

definition resetSelectedItems :: "'a list \<Rightarrow> 'a grid_state \<Rightarrow> 'a grid_state" where
  \<comment> \<open>Modelled from the spec: \<open>explorer.resetSelectedItems\<close> is not among the sources.
      Section 4.1: \<open>reset(items)\<close> makes the selection exactly the given items.\<close>
  "resetSelectedItems its s = s\<lparr>selectedItems := js_set_of its\<rparr>"

section \<open>Element lookup\<close>

definition replaceAll_backslash :: "string \<Rightarrow> string" where
  \<comment> \<open>\<open>id.replaceAll('\\', '\\\\')\<close>: every backslash is doubled.\<close>
  "replaceAll_backslash s = concat (map (\<lambda>c. if c = CHR 0x5C then [c, c] else [c]) s)"

definition getElementById :: "'a view_env \<Rightarrow> string \<Rightarrow> element option" where
  "getElementById env ident =
     (let ident' = (if realOS_windows env \<and> parent_Ephemeral env
                    then replaceAll_backslash ident else ident)
      in querySelector env (''[data-selectable-id='' @ [CHR 0x22] @ ident' @ [CHR 0x22] @ '']''))"

definition getElementIndex :: "element \<Rightarrow> int option" where
  "getElementIndex el = data_selectable_index el"

definition getElementItem :: "'a view_env \<Rightarrow> element \<Rightarrow> 'a grid_item option" where
  "getElementItem env el =
     (case getElementIndex el of
        None \<Rightarrow> None
      | Some i \<Rightarrow> grid_getItem env i)"

section \<open>Drag end\<close>

definition least_step ::
  "'a view_env \<Rightarrow> 'a grid_item option \<Rightarrow> element \<Rightarrow> 'a grid_item option" where
  \<comment> \<open>The callback of the \<open>reduce\<close> in \<open>getActiveItem\<close>.\<close>
  "least_step env least current =
     (case getElementItem env current of
        None \<Rightarrow> least
      | Some currentItem \<Rightarrow>
          (case least of
             None \<Rightarrow> Some currentItem
           | Some l \<Rightarrow> if gi_index currentItem < gi_index l then Some currentItem else Some l))"

definition getActiveItem :: "'a view_env \<Rightarrow> element list \<Rightarrow> 'a option" where
  "getActiveItem env elements =
     (case foldl (least_step env) None elements of
        None \<Rightarrow> None
      | Some g \<Rightarrow> gi_data g)"

definition getSelectedTargets :: "'a grid_state \<Rightarrow> element list" where
  \<comment> \<open>\<open>selecto.current?.getSelectedTargets() ?? []\<close>\<close>
  "getSelectedTargets s = (case selecto s of None \<Rightarrow> [] | Some ts \<Rightarrow> ts)"

definition setSelectedTargets :: "element list \<Rightarrow> 'a grid_state \<Rightarrow> 'a grid_state" where
  \<comment> \<open>\<open>selecto.current?.setSelectedTargets(ts)\<close>: nothing happens on a null ref.\<close>
  "setSelectedTargets ts s =
     (case selecto s of None \<Rightarrow> s | Some _ \<Rightarrow> s\<lparr>selecto := Some ts\<rparr>)"

definition handleDragEnd :: "'a view_env \<Rightarrow> 'a grid_state \<Rightarrow> 'a grid_state" where
  "handleDragEnd env s =
     (let s1 = s\<lparr>isDragSelecting := False,
                  selectoFirstColumn := None,
                  selectoLastColumn := None,
                  dragFromThumbnail := False\<rparr>;
          allSelected = getSelectedTargets s1
      in s1\<lparr>activeItem := getActiveItem env allSelected\<rparr>)"

section \<open>Keyboard navigation\<close>

definition activeItemClearingEffect :: "'a grid_state \<Rightarrow> 'a grid_state" where
  \<comment> \<open>The effect that forgets the active item once the selection is empty.\<close>
  "activeItemClearingEffect s =
     (if selectedItems s \<noteq> [] then s
      else s\<lparr>selectoUnselected := {}, activeItem := None\<rparr>)"

definition quickPreviewEffect :: "'a view_env \<Rightarrow> 'a grid_state \<Rightarrow> 'a grid_state" where
  \<comment> \<open>The effect that keeps the drag-select widget in step with the selection while
      the quick preview is open. \<open>new Set(itemId)\<close> of a string is the set of its
      characters.\<close>
  "quickPreviewEffect env s =
     (if selecto s = None \<or> \<not> quickPreviewOpen s then s
      else case selectedItems s of
        [item] \<Rightarrow>
          (let itemId = uniqueId env item
           in (case getElementById env itemId of
                 None \<Rightarrow> s\<lparr>selectoUnselected := set (map (\<lambda>c. [c]) itemId)\<rparr>
               | Some element \<Rightarrow> setSelectedTargets [element] s)
              \<lparr>activeItem := Some item\<rparr>)
      | _ \<Rightarrow> s)"

definition selectionEffects :: "'a view_env \<Rightarrow> 'a grid_state \<Rightarrow> 'a grid_state" where
  \<comment> \<open>The two effects that depend on \<open>explorer.selectedItems\<close>, in the order of the
      component; they run after a render in which the selection changed.\<close>
  "selectionEffects env s = quickPreviewEffect env (activeItemClearingEffect s)"

definition explorerEscape :: "'a view_env \<Rightarrow> 'a grid_state \<Rightarrow> 'a grid_state" where
  "explorerEscape env s =
     (if \<not> selectable env \<or> selectedItems s = [] then s
      else setSelectedTargets [] (resetSelectedItems [] s))"

definition keyboardHandler ::
  "'a view_env \<Rightarrow> bool \<Rightarrow> int \<Rightarrow> 'a grid_state \<Rightarrow> 'a grid_state" where
  \<comment> \<open>\<open>keyboardHandler(e, newIndex)\<close> with \<open>shiftKey = e.shiftKey\<close>. After
      \<open>activeItem.current\<close> is set the handler only scrolls the container, which
      is not part of the state.\<close>
  "keyboardHandler env shiftKey newIndex s =
     (if \<not> selectable env then s
      else case grid_getItem env newIndex of
        None \<Rightarrow> s
      | Some newSelectedItem \<Rightarrow>
          (case gi_data newSelectedItem of
             None \<Rightarrow> s
           | Some d \<Rightarrow>
               if \<not> allowMultiSelect env
               then (resetSelectedItems [d] s)\<lparr>activeItem := Some d\<rparr>
               else (case getElementById env (uniqueId env d) of
                  None \<Rightarrow> s
                | Some selectedItemElement \<Rightarrow>
                    (if shiftKey \<and> \<not> quickPreviewOpen s
                     then (if d \<notin> set (selectedItems s)
                           then setSelectedTargets
                                  (getSelectedTargets s @ [selectedItemElement])
                                  (addSelectedItem env d s)
                           else s)
                     else (let s1 = setSelectedTargets [selectedItemElement]
                                      (resetSelectedItems [d] s)
                           in if selectoUnselected s1 \<noteq> {}
                              then s1\<lparr>selectoUnselected := {}\<rparr> else s1))
                    \<lparr>activeItem := Some d\<rparr>)))"

datatype arrow_key = ArrowUp | ArrowDown | ArrowLeft | ArrowRight

fun findIndex :: "('a \<Rightarrow> bool) \<Rightarrow> 'a list \<Rightarrow> nat option" where
  \<comment> \<open>\<open>Array.prototype.findIndex\<close>; \<open>None\<close> is the result -1.\<close>
  "findIndex P [] = None"
| "findIndex P (x # xs) =
     (if P x then Some 0 else map_option Suc (findIndex P xs))"

definition getGridItemHandler :: "'a view_env \<Rightarrow> arrow_key \<Rightarrow> 'a grid_state \<Rightarrow> int option" where
  \<comment> \<open>\<open>None\<close> is the result \<open>undefined\<close>.\<close>
  "getGridItemHandler env key s =
     (case activeItem s of
        None \<Rightarrow> None
      | Some lastItem \<Rightarrow>
          (case items env of
             None \<Rightarrow> None
           | Some its \<Rightarrow>
               (case findIndex (\<lambda>item. item = lastItem) its of
                  None \<Rightarrow> None
                | Some lastItemIndex \<Rightarrow>
                    (case grid_getItem env (int lastItemIndex) of
                       None \<Rightarrow> None
                     | Some gridItem \<Rightarrow>
                         Some (case key of
                                 ArrowUp \<Rightarrow> gi_index gridItem - grid_columnCount env
                               | ArrowDown \<Rightarrow> gi_index gridItem + grid_columnCount env
                               | ArrowLeft \<Rightarrow> gi_index gridItem - 1
                               | ArrowRight \<Rightarrow> gi_index gridItem + 1)))))"

definition explorerDown :: "'a view_env \<Rightarrow> bool \<Rightarrow> 'a grid_state \<Rightarrow> 'a grid_state" where
  "explorerDown env shiftKey s =
     (if \<not> selectable env \<or> isAnyDialogOpen env then s
      else if selectedItems s = []
      then (case grid_getItem env 0 of
              None \<Rightarrow> s
            | Some item \<Rightarrow>
                (case gi_data item of
                   None \<Rightarrow> s
                 | Some d \<Rightarrow>
                     (case getElementById env (uniqueId env d) of
                        None \<Rightarrow> s
                      | Some selectedItemElement \<Rightarrow>
                          (setSelectedTargets [selectedItemElement]
                             (resetSelectedItems [d] s))\<lparr>activeItem := Some d\<rparr>)))
      else (case getGridItemHandler env ArrowDown s of
              None \<Rightarrow> s
            | Some newIndex \<Rightarrow> keyboardHandler env shiftKey newIndex s))"

definition explorerArrow ::
  "'a view_env \<Rightarrow> arrow_key \<Rightarrow> bool \<Rightarrow> 'a grid_state \<Rightarrow> 'a grid_state" where
  \<comment> \<open>The shortcuts \<open>explorerUp\<close>, \<open>explorerLeft\<close> and \<open>explorerRight\<close>, which differ
      in the key only, and \<open>explorerDown\<close>.\<close>
  "explorerArrow env key shiftKey s =
     (if key = ArrowDown then explorerDown env shiftKey s
      else if \<not> selectable env \<or> isAnyDialogOpen env then s
      else (case getGridItemHandler env key s of
              None \<Rightarrow> s
            | Some newIndex \<Rightarrow> keyboardHandler env shiftKey newIndex s))"

definition onMouseDown :: "'a view_env \<Rightarrow> int \<Rightarrow> int \<Rightarrow> 'a grid_state \<Rightarrow> 'a grid_state" where
  \<comment> \<open>\<open>onMouseDown\<close> of the \<open>GridItem\<close> rendered for \<open>index\<close>, with \<open>button = e.button\<close>.\<close>
  "onMouseDown env index button s =
     (if button \<noteq> 0 \<or> \<not> selectable env then s
      else case grid_getItem env index of
        None \<Rightarrow> s
      | Some item \<Rightarrow>
          (case gi_data item of
             None \<Rightarrow> s
           | Some d \<Rightarrow>
               (if \<not> allowMultiSelect env
                then resetSelectedItems [d] s
                else s\<lparr>selectoFirstColumn := Some (gi_column item),
                       selectoLastColumn := Some (gi_column item)\<rparr>)
               \<lparr>activeItem := Some d\<rparr>))"

section \<open>Marquee drag: the \<open>mousemove\<close> branch of \<open>onSelect\<close>\<close>

datatype js_error = RangeError

datatype drag_x = DragLeft | DragRight

datatype drag_y = DragDown | DragUp

text \<open>
  The event of the drag-select widget: the pointer position and the shift key of
  \<open>e.inputEvent\<close>, the targets that entered and left the rectangle since the last
  tick, and the rectangle swept since the drag started.
\<close>

record select_event =
  inputEvent_x :: px
  inputEvent_y :: px
  inputEvent_shiftKey :: bool
  added :: "element list"
  removed :: "element list"
  e_rect :: rect

definition items_at :: "'a list option \<Rightarrow> int \<Rightarrow> 'a option" where
  \<comment> \<open>\<open>explorer.items?.[index]\<close>: \<open>undefined\<close> outside the array.\<close>
  "items_at its i =
     (case its of
        None \<Rightarrow> None
      | Some xs \<Rightarrow> if 0 \<le> i \<and> i < int (length xs) then Some (xs ! nat i) else None)"

definition added_step :: "'a view_env \<Rightarrow> 'a grid_state \<Rightarrow> element \<Rightarrow> 'a grid_state" where
  "added_step env s el =
     (case getElementItem env el of
        None \<Rightarrow> s
      | Some item \<Rightarrow>
          (case gi_data item of
             None \<Rightarrow> s
           | Some d \<Rightarrow> addSelectedItem env d s))"

definition removed_step ::
  "'a view_env \<Rightarrow> 'a grid_state \<times> string list \<Rightarrow> element \<Rightarrow> 'a grid_state \<times> string list" where
  "removed_step env acc el =
     (case acc of (s, unselectedItems) \<Rightarrow>
       (case getElementItem env el of
          None \<Rightarrow> (s, unselectedItems)
        | Some item \<Rightarrow>
            (case gi_data item of
               None \<Rightarrow> (s, unselectedItems)
             | Some d \<Rightarrow>
                 (case gi_id item of
                    IdNumber _ \<Rightarrow> (s, unselectedItems)
                  | IdString ident \<Rightarrow>
                      if isConnected el then (removeSelectedItem d s, unselectedItems)
                      else (s, unselectedItems @ [ident])))))"

definition hit_phase ::
  "'a view_env \<Rightarrow> select_event \<Rightarrow> 'a grid_state \<Rightarrow> 'a grid_state \<times> string list" where
  \<comment> \<open>\<open>e.added.forEach\<close> and then \<open>e.removed.forEach\<close>.\<close>
  "hit_phase env e s =
     foldl (removed_step env) (foldl (added_step env) s (added e), []) (removed e)"

definition dragDirection_x :: "select_event \<Rightarrow> drag_x" where
  "dragDirection_x e =
     (if inputEvent_x e = rect_left (e_rect e) then DragLeft else DragRight)"

definition dragDirection_y :: "select_event \<Rightarrow> drag_y" where
  "dragDirection_y e =
     (if inputEvent_y e = rect_bottom (e_rect e) then DragDown else DragUp)"

definition dragStart_y :: "select_event \<Rightarrow> px" where
  "dragStart_y e =
     (if dragDirection_y e = DragDown then rect_top (e_rect e) else rect_bottom (e_rect e))"

definition drag_items :: "'a view_env \<Rightarrow> select_event \<Rightarrow> 'a grid_item list" where
  \<comment> \<open>The \<open>reduce\<close> over \<open>[...e.added, ...e.removed]\<close> that collects the grid items.\<close>
  "drag_items env e = List.map_filter (getElementItem env) (added e @ removed e)"

definition drag_columns :: "'a view_env \<Rightarrow> select_event \<Rightarrow> int list" where
  "drag_columns env e = js_set_of (map gi_column (drag_items env e))"

definition inDragArea :: "select_event \<Rightarrow> bool" where
  "inDragArea e =
     (case added e @ removed e of
        [] \<Rightarrow> False
      | el # _ \<Rightarrow>
          (if dragDirection_x e = DragRight
           then inputEvent_x e \<ge> rect_left (boundingClientRect el)
           else inputEvent_x e \<le> rect_right (boundingClientRect el)))"

definition itemsInDragCount :: "(px \<Rightarrow> px) \<Rightarrow> px \<Rightarrow> px \<Rightarrow> px \<Rightarrow> int" where
  \<comment> \<open>The difference, the sum and the quotient are each rounded to a double by
      \<open>rnd\<close>; then \<open>Math.ceil\<close> above 1, \<open>Math.round\<close> (half up) otherwise.\<close>
  "itemsInDragCount rnd dragHeight gap_y height =
     (let q = rnd (rnd (dragHeight - gap_y) / rnd (height + gap_y))
      in if q > 1 then \<lceil>q\<rceil> else round q)"

definition drag_indices :: "'a view_env \<Rightarrow> drag_y \<Rightarrow> int \<Rightarrow> px \<Rightarrow> js_error + int list" where
  \<comment> \<open>The item indices the \<open>forEach\<close> over \<open>[...Array(itemsInDragCount)]\<close> visits, in
      its order. \<open>Array(n)\<close> throws a RangeError unless \<open>n\<close> is an integer from 0 to
      4294967295; a division by zero gives NaN or an infinity, which it refuses too.\<close>
  "drag_indices env dy firstIndex dragHeight =
     (if fl env (grid_virtualItemSize_height env + grid_gap_y env) = 0 then Inl RangeError
      else
        let n = itemsInDragCount (fl env) dragHeight (grid_gap_y env)
                  (grid_virtualItemSize_height env)
        in if n < 0 \<or> n > 4294967295 then Inl RangeError
           else Inr (map (\<lambda>i. let index = (if dy = DragDown then n - i else i + 1)
                               in firstIndex
                                  + (if dy = DragDown then - index else index)
                                    * grid_columnCount env)
                         [0..n - 1]))"

definition synth_step ::
  "'a view_env \<Rightarrow> select_event \<Rightarrow> 'a grid_state \<times> string list \<Rightarrow> int
     \<Rightarrow> 'a grid_state \<times> string list" where
  \<comment> \<open>The body of that \<open>forEach\<close> for one \<open>itemIndex\<close>.\<close>
  "synth_step env e acc itemIndex =
     (case acc of (s, unselectedItems) \<Rightarrow>
       (case items_at (items env) itemIndex of
          None \<Rightarrow> (s, unselectedItems)
        | Some item \<Rightarrow>
            if inputEvent_shiftKey e
            then (if item \<in> set (selectedItems s)
                  then (removeSelectedItem item s, unselectedItems)
                  else (addSelectedItem env item s,
                        if inDragArea e then unselectedItems @ [uniqueId env item]
                        else unselectedItems))
            else if \<not> inDragArea e
            then (removeSelectedItem item s, unselectedItems)
            else (addSelectedItem env item s, unselectedItems @ [uniqueId env item])))"

definition synth_phase ::
  "'a view_env \<Rightarrow> select_event \<Rightarrow> 'a grid_item list \<Rightarrow> 'a grid_state \<times> string list
     \<Rightarrow> (js_error \<times> 'a grid_state) + ('a grid_state \<times> string list)" where
  \<comment> \<open>\<open>if (firstItem) { ... }\<close> for the items sorted by row. A throw leaves the
      state as it is at that point.\<close>
  "synth_phase env e sortedItems acc =
     (case acc of (s, unselectedItems) \<Rightarrow>
       (case sortedItems of
          [] \<Rightarrow> Inr (s, unselectedItems)
        | _ # _ \<Rightarrow>
            (let dy = dragDirection_y e;
                 firstItem = (if dy = DragDown then hd sortedItems else last sortedItems);
                 itemTop = fl env (rect_top (gi_rect firstItem) + viewRectTop env);
                 itemBottom = fl env (rect_bottom (gi_rect firstItem) + viewRectTop env)
             in if (if dy = DragDown then dragStart_y e < itemTop
                    else dragStart_y e > itemBottom)
                then (let dragHeight =
                            \<bar>fl env (dragStart_y e
                                      - (if dy = DragDown then itemTop else itemBottom))\<bar>
                      in case drag_indices env dy (gi_index firstItem) dragHeight of
                           Inl err \<Rightarrow> Inl (err, s)
                         | Inr indices \<Rightarrow>
                             Inr (foldl (synth_step env e) (s, unselectedItems) indices))
                else Inr (s, unselectedItems))))"

definition column_bookkeeping :: "select_event \<Rightarrow> int \<Rightarrow> 'a grid_state \<Rightarrow> 'a grid_state" where
  "column_bookkeeping e column s =
     (if \<not> inDragArea e \<and> Some column = selectoFirstColumn s
      then s\<lparr>selectoFirstColumn := None, selectoLastColumn := None\<rparr>
      else (let s1 = s\<lparr>selectoLastColumn := Some column\<rparr>
            in if selectoFirstColumn s1 = None
               then s1\<lparr>selectoFirstColumn := Some column\<rparr> else s1))"

definition flush_unselected :: "'a grid_state \<times> string list \<Rightarrow> 'a grid_state" where
  \<comment> \<open>\<open>if (unselectedItems.length > 0) selectoUnselected.current = new Set([...])\<close>\<close>
  "flush_unselected acc =
     (case acc of (s, unselectedItems) \<Rightarrow>
        if unselectedItems \<noteq> []
        then s\<lparr>selectoUnselected := selectoUnselected s \<union> set unselectedItems\<rparr>
        else s)"

definition onSelect_mousemove ::
  "'a view_env \<Rightarrow> select_event \<Rightarrow> 'a grid_state \<Rightarrow> (js_error \<times> 'a grid_state) + 'a grid_state" where
  "onSelect_mousemove env e s =
     (case hit_phase env e s of (s2, unselectedItems) \<Rightarrow>
       (case drag_columns env e of
          [] \<Rightarrow> Inr (flush_unselected (s2, unselectedItems))
        | [column] \<Rightarrow>
            (if Some column \<noteq> selectoLastColumn s2
                \<or> (Some column = selectoLastColumn s2 \<and> \<not> inDragArea e)
             then (case synth_phase env e (sort_key gi_row (drag_items env e))
                          (s2, unselectedItems) of
                     Inl thrown \<Rightarrow> Inl thrown
                   | Inr (s3, unselectedItems') \<Rightarrow>
                       Inr (flush_unselected
                              (column_bookkeeping e column s3, unselectedItems')))
             else Inr (flush_unselected (s2, unselectedItems)))
        | _ # _ # _ \<Rightarrow>
            (let sortedItems = sort_key gi_column (drag_items env e)
             in case sortedItems of
                  [] \<Rightarrow> Inr (flush_unselected (s2, unselectedItems))
                | _ # _ \<Rightarrow>
                    (let firstItem = (if dragDirection_x e = DragRight
                                      then hd sortedItems else last sortedItems);
                         lastItem = (if dragDirection_x e = DragRight
                                     then last sortedItems else hd sortedItems)
                     in Inr (flush_unselected
                               (s2\<lparr>selectoFirstColumn := Some (gi_column firstItem),
                                    selectoLastColumn := Some (gi_column lastItem)\<rparr>,
                                unselectedItems))))))"

section \<open>Double click: the open dispatcher\<close>

record FilePath =
  fp_id :: int
  fp_object_id :: "int option"
  fp_is_dir :: bool
  fp_materialized_path :: string
  fp_name :: string

record Location =
  loc_id :: int

record NonIndexedPathItem =
  nip_path :: string
  nip_is_dir :: bool

record LabelItem =
  label_id :: int

text \<open>
  The variants of \<open>ExplorerItem\<close>, named by their \<open>type\<close> tag, with the part of
  \<open>item\<close> the dispatcher reads: for an \<open>Object\<close> its \<open>file_paths\<close>.
\<close>

datatype ExplorerItem =
    Path FilePath
  | Object "FilePath list"
  | Location Location
  | NonIndexedPath NonIndexedPathItem
  | SpacedropPeer string
  | Label LabelItem

datatype open_setting = openFile | quickPreview

text \<open>
  What \<open>useViewItemDoubleClick\<close> reads from its render. The platform functions are
  optional; applied to their argument they answer whether the call succeeded
  (\<open>False\<close>: the promise is rejected). \<open>uniqueId\<close> and \<open>isPath\<close> are imported helpers,
  taken as parameters.
\<close>

record open_env =
  item_uniqueId :: "ExplorerItem \<Rightarrow> string"
  isPath :: "ExplorerItem \<Rightarrow> bool"
  openOnDoubleClick :: open_setting
  openFilePaths :: "(int list \<Rightarrow> bool) option"
  openEphemeralFiles :: "(string list \<Rightarrow> bool) option"

text \<open>The calls the dispatcher makes, in the order it makes them.\<close>

datatype effect =
    UpdateAccessTime "int list"
  | OpenFilePaths "int list"
  | OpenEphemeralFiles "string list"
  | ToastError string
  | SetSearchParams string
  | NavigateLocation int
  | NavigateEphemeral string
  | NavigateLabelSearch int

record buckets =
  dirs :: "FilePath list"
  paths :: "FilePath list"
  locations :: "Location list"
  non_indexed :: "NonIndexedPathItem list"

definition isNonEmpty :: "'a list \<Rightarrow> bool" where
  \<comment> \<open>Modelled from the spec: the helper \<open>isNonEmpty\<close> of \<open>~/util\<close> is not among the
      sources; the dispatcher works on the current selection and has nothing to
      open when there is none.\<close>
  "isNonEmpty xs = (xs \<noteq> [])"

definition splice_insert :: "int \<Rightarrow> 'a \<Rightarrow> 'a list \<Rightarrow> 'a list" where
  \<comment> \<open>\<open>xs.splice(start, 0, x)\<close>: a negative start counts from the end, and the
      start is clamped to the array.\<close>
  "splice_insert start x xs =
     (let len = int (length xs);
          k = (if start < 0 then max (len + start) 0 else min start len)
      in take (nat k) xs @ x # drop (nat k) xs)"

definition splice_start :: "bool \<Rightarrow> int" where
  \<comment> \<open>\<open>sameAsClicked ? 0 : -1\<close>\<close>
  "splice_start sameAsClicked = (if sameAsClicked then 0 else - 1)"

definition place_filePath :: "bool \<Rightarrow> buckets \<Rightarrow> FilePath \<Rightarrow> buckets" where
  "place_filePath sameAsClicked b filePath =
     (if fp_is_dir filePath
      then b\<lparr>dirs := splice_insert (splice_start sameAsClicked) filePath (dirs b)\<rparr>
      else b\<lparr>paths := splice_insert (splice_start sameAsClicked) filePath (paths b)\<rparr>)"

definition partition_step ::
  "open_env \<Rightarrow> ExplorerItem option \<Rightarrow> nat \<times> buckets \<Rightarrow> ExplorerItem \<times> nat \<Rightarrow> nat \<times> buckets" where
  \<comment> \<open>The callback of the \<open>reduce\<close> over the selection, for \<open>selectedItem\<close> at index
      \<open>i\<close>; the first component is the variable \<open>itemIndex\<close>.\<close>
  "partition_step env item acc sel =
     (case acc of (itemIndex, b) \<Rightarrow>
      case sel of (selectedItem, i) \<Rightarrow>
       (let sameAsClicked =
              (case item of
                 None \<Rightarrow> False
               | Some it \<Rightarrow> item_uniqueId env it = item_uniqueId env selectedItem);
            itemIndex' = (if sameAsClicked then i else itemIndex)
        in (itemIndex',
            case selectedItem of
              Location l \<Rightarrow>
                b\<lparr>locations := splice_insert (splice_start sameAsClicked) l (locations b)\<rparr>
            | NonIndexedPath n \<Rightarrow>
                b\<lparr>non_indexed := splice_insert (splice_start sameAsClicked) n (non_indexed b)\<rparr>
            | SpacedropPeer _ \<Rightarrow> b
            | Label _ \<Rightarrow> b
            | Path filePath \<Rightarrow> foldl (place_filePath sameAsClicked) b [filePath]
            | Object file_paths \<Rightarrow> foldl (place_filePath sameAsClicked) b file_paths)))"

definition partition_selection ::
  "open_env \<Rightarrow> ExplorerItem option \<Rightarrow> ExplorerItem list \<Rightarrow> nat \<times> buckets" where
  "partition_selection env item sel =
     foldl (partition_step env item)
       (0, \<lparr>dirs = [], paths = [], locations = [], non_indexed = []\<rparr>)
       (zip sel [0..<length sel])"

definition item_is_dir :: "ExplorerItem \<Rightarrow> bool" where
  \<comment> \<open>Whether \<open>item.item.is_dir\<close> is truthy: only file paths and non-indexed paths
      have the property.\<close>
  "item_is_dir it =
     (case it of
        Path filePath \<Rightarrow> fp_is_dir filePath
      | NonIndexedPath n \<Rightarrow> nip_is_dir n
      | _ \<Rightarrow> False)"

definition openQuickPreview ::
  "open_env \<Rightarrow> ExplorerItem option \<Rightarrow> nat \<Rightarrow> ExplorerItem grid_state
     \<Rightarrow> ExplorerItem grid_state option" where
  \<comment> \<open>\<open>else if (item && openOnDoubleClick === 'quickPreview') { if (...) { ...; return } }\<close>:
      the state is returned when the dispatcher returns here.\<close>
  "openQuickPreview env item itemIndex s =
     (case item of
        None \<Rightarrow> None
      | Some it \<Rightarrow>
          if openOnDoubleClick env = quickPreview
          then (if (case it of Location _ \<Rightarrow> False | _ \<Rightarrow> True)
                   \<and> \<not> (isPath env it \<and> item_is_dir it)
                then Some (s\<lparr>quickPreviewItemIndex := itemIndex, quickPreviewOpen := True\<rparr>)
                else None)
          else None)"

definition failed_to_open :: effect where
  "failed_to_open = ToastError ''Failed to open file''"

definition object_ids :: "FilePath list \<Rightarrow> int list" where
  \<comment> \<open>\<open>paths.map(({ object_id }) => object_id!).filter(Boolean)\<close>: null and 0 are
      dropped.\<close>
  "object_ids ps =
     List.map_filter
       (\<lambda>p. case fp_object_id p of
               None \<Rightarrow> None
             | Some i \<Rightarrow> if i = 0 then None else Some i) ps"

definition open_paths ::
  "open_env \<Rightarrow> ExplorerItem option \<Rightarrow> nat \<Rightarrow> buckets \<Rightarrow> ExplorerItem grid_state
     \<Rightarrow> effect list \<times> ExplorerItem grid_state option" where
  \<comment> \<open>\<open>if (items.paths.length > 0) { ... }\<close>: the calls made, and the state when the
      dispatcher returns inside.\<close>
  "open_paths env item itemIndex b s =
     (if paths b \<noteq> []
      then (case (openOnDoubleClick env, openFilePaths env) of
              (openFile, Some call) \<Rightarrow>
                ([UpdateAccessTime (object_ids (paths b)),
                  OpenFilePaths (map fp_id (paths b))]
                 @ (if call (map fp_id (paths b)) then [] else [failed_to_open]),
                 None)
            | _ \<Rightarrow> ([], openQuickPreview env item itemIndex s))
      else ([], None))"

definition open_non_indexed ::
  "open_env \<Rightarrow> ExplorerItem option \<Rightarrow> nat \<Rightarrow> buckets \<Rightarrow> ExplorerItem grid_state
     \<Rightarrow> effect list \<times> ExplorerItem grid_state option" where
  \<comment> \<open>\<open>if (items.non_indexed.length > 0) { ... }\<close>, likewise.\<close>
  "open_non_indexed env item itemIndex b s =
     (case non_indexed b of
        [] \<Rightarrow> ([], None)
      | n # ns \<Rightarrow>
          if ns = [] \<and> nip_is_dir n then ([NavigateEphemeral (nip_path n)], Some s)
          else (case (openOnDoubleClick env, openEphemeralFiles env) of
                  (openFile, Some call) \<Rightarrow>
                    (OpenEphemeralFiles (map nip_path (non_indexed b))
                     # (if call (map nip_path (non_indexed b)) then [] else [failed_to_open]),
                     None)
                | _ \<Rightarrow> ([], openQuickPreview env item itemIndex s)))"

definition open_label :: "ExplorerItem option \<Rightarrow> effect list" where
  \<comment> \<open>\<open>if (!item) return; if (item.type === 'Label') { navigate(...); return }\<close>\<close>
  "open_label item =
     (case item of
        Some (Label l) \<Rightarrow> [NavigateLabelSearch (label_id l)]
      | _ \<Rightarrow> [])"

definition doubleClick ::
  "open_env \<Rightarrow> ExplorerItem option \<Rightarrow> ExplorerItem grid_state
     \<Rightarrow> effect list \<times> ExplorerItem grid_state" where
  \<comment> \<open>\<open>doubleClick(item)\<close>: the calls it makes and the state it leaves. The search
      parameters are set to the path \<open>materialized_path + name + '/'\<close> (the
      parameter \<open>take\<close> is carried over).\<close>
  "doubleClick env item s =
     (if \<not> isNonEmpty (selectedItems s) then ([], s)
      else case partition_selection env item (selectedItems s) of (itemIndex, b) \<Rightarrow>
        (case open_paths env item itemIndex b s of
           (effs1, Some s') \<Rightarrow> (effs1, s')
         | (effs1, None) \<Rightarrow>
             (case dirs b of
                d # _ \<Rightarrow>
                  (effs1 @ [SetSearchParams (fp_materialized_path d @ fp_name d @ ''/'')], s)
              | [] \<Rightarrow>
                  (case locations b of
                     l # _ \<Rightarrow> (effs1 @ [NavigateLocation (loc_id l)], s)
                   | [] \<Rightarrow>
                       (case open_non_indexed env item itemIndex b s of
                          (effs2, Some s') \<Rightarrow> (effs1 @ effs2, s')
                        | (effs2, None) \<Rightarrow> (effs1 @ effs2 @ open_label item, s))))))"

section \<open>Rounding to a double\<close>

definition two_power :: "int \<Rightarrow> rat" where
  "two_power k = (if 0 \<le> k then 2 ^ nat k else 1 / 2 ^ nat (- k))"

definition binade :: "rat \<Rightarrow> int" where
  \<comment> \<open>For a positive \<open>x\<close>, the exponent \<open>e\<close> with \<open>2 ^ e \<le> x < 2 ^ (e + 1)\<close>: it is
      the difference of the bit lengths of numerator and denominator, or one less.\<close>
  "binade x =
     (case quotient_of x of (p, q) \<Rightarrow>
        let d = bitlen p - bitlen q
        in if two_power d \<le> x then d else d - 1)"

definition round_half_even :: "rat \<Rightarrow> int" where
  "round_half_even x =
     (let f = \<lfloor>x\<rfloor>; d = x - of_int f
      in if d < 1 / 2 then f
         else if 1 / 2 < d then f + 1
         else if even f then f else f + 1)"

definition binary64 :: "rat \<Rightarrow> rat" where
  \<comment> \<open>The nearest double, ties to even: a significand of 53 bits, and below
      \<open>2 ^ - 1022\<close> the fixed spacing of the subnormal numbers. Overflow to an
      infinity is not modelled.\<close>
  "binary64 x =
     (if x = 0 then 0
      else let a = \<bar>x\<bar>;
               e = max (binade a) (- 1022);
               ulp = two_power (e - 52)
           in sgn x * of_int (round_half_even (a / ulp)) * ulp)"

section \<open>A concrete grid for the scenarios\<close>

definition layout_getItem ::
  "int \<Rightarrow> px \<Rightarrow> px \<Rightarrow> px \<Rightarrow> ('a \<Rightarrow> string) \<Rightarrow> 'a list \<Rightarrow> int \<Rightarrow> 'a grid_item option" where
  \<comment> \<open>Modelled from the spec: the virtual grid is an external collaborator and not
      among the sources. Section 3, Grid Geometry: the geometry of an index is a
      pure function of the index, the column count, the item size and the gap
      (no padding here); the rows are filled from left to right. Data and id are
      what the component passes as \<open>getItemData\<close> and \<open>getItemId\<close>.\<close>
  "layout_getItem columnCount width height gap uid its i =
     (if 0 \<le> i \<and> i < int (length its)
      then Some \<lparr>gi_index = i,
                  gi_id = IdString (uid (its ! nat i)),
                  gi_data = Some (its ! nat i),
                  gi_row = i div columnCount,
                  gi_column = i mod columnCount,
                  gi_rect =
                    \<lparr>rect_top = of_int (i div columnCount) * (height + gap),
                     rect_bottom = of_int (i div columnCount) * (height + gap) + height,
                     rect_left = of_int (i mod columnCount) * (width + gap),
                     rect_right = of_int (i mod columnCount) * (width + gap) + width\<rparr>\<rparr>
      else None)"

definition example_id :: "nat \<Rightarrow> string" where
  "example_id n = ''item-'' @ [char_of (n + 97)]"

definition example_element :: "int \<Rightarrow> int \<Rightarrow> element" where
  \<comment> \<open>The mounted element of item \<open>i\<close> in a grid of 100 by 100 items with gap 10.\<close>
  "example_element columnCount i =
     \<lparr>data_selectable_id = Some (example_id (nat i)),
      data_selectable_index = Some i,
      isConnected = True,
      boundingClientRect =
        \<lparr>rect_top = of_int (i div columnCount) * 110,
         rect_bottom = of_int (i div columnCount) * 110 + 100,
         rect_left = of_int (i mod columnCount) * 110,
         rect_right = of_int (i mod columnCount) * 110 + 100\<rparr>\<rparr>"

definition example_querySelector :: "element list \<Rightarrow> string \<Rightarrow> element option" where
  \<comment> \<open>\<open>document.querySelector\<close> for an attribute selector over the mounted elements.\<close>
  "example_querySelector mounted selector =
     find (\<lambda>el. case data_selectable_id el of
                  None \<Rightarrow> False
                | Some i \<Rightarrow> selector = ''[data-selectable-id='' @ [CHR 0x22] @ i @ [CHR 0x22] @ '']'')
          mounted"

definition example_env :: "bool \<Rightarrow> int \<Rightarrow> nat \<Rightarrow> element list \<Rightarrow> nat view_env" where
  \<comment> \<open>A selectable view over the items \<open>0, ..., n - 1\<close> with the given elements
      mounted.\<close>
  "example_env multi columnCount n mounted =
     \<lparr>selectable = True,
      allowMultiSelect = multi,
      isAnyDialogOpen = False,
      items = Some [0..<n],
      uniqueId = example_id,
      grid_getItem = layout_getItem columnCount 100 100 10 example_id [0..<n],
      grid_columnCount = columnCount,
      grid_gap_y = 10,
      grid_virtualItemSize_height = 100,
      querySelector = example_querySelector mounted,
      realOS_windows = False,
      parent_Ephemeral = False,
      viewRectTop = 0,
      fl = binary64\<rparr>"

definition example_state :: "nat list \<Rightarrow> nat option \<Rightarrow> element list option \<Rightarrow> nat grid_state" where
  "example_state sel anchor targets =
     \<lparr>selectedItems = sel,
      selecto = targets,
      selectoUnselected = {},
      selectoFirstColumn = None,
      selectoLastColumn = None,
      activeItem = anchor,
      dragFromThumbnail = False,
      isDragSelecting = False,
      quickPreviewOpen = False,
      quickPreviewItemIndex = 0\<rparr>"

section \<open>Sequences of selection operations\<close>

text \<open>
  The operations on the selection that reach the component while the drag-select
  widget is not rendered: the arrow shortcuts, the escape shortcut and a mouse-down
  on an item. Each arrives with the render it is handled in.
\<close>

datatype ui_event = KeyArrow arrow_key bool | KeyEscape | MouseDown int int

fun handle_event :: "'a view_env \<Rightarrow> ui_event \<Rightarrow> 'a grid_state \<Rightarrow> 'a grid_state" where
  "handle_event env (KeyArrow key shiftKey) s = explorerArrow env key shiftKey s"
| "handle_event env KeyEscape s = explorerEscape env s"
| "handle_event env (MouseDown index button) s = onMouseDown env index button s"

fun run_events :: "('a view_env \<times> ui_event) list \<Rightarrow> 'a grid_state \<Rightarrow> 'a grid_state" where
  "run_events [] s = s"
| "run_events ((env, ev) # evs) s = run_events evs (handle_event env ev s)"

section \<open>The open dispatcher: what the selection holds, and examples\<close>




definition is_navigation :: "effect \<Rightarrow> bool" where
  \<comment> \<open>The calls that change the route or its search parameters.\<close>
  "is_navigation eff =
     (case eff of
        SetSearchParams _ \<Rightarrow> True
      | NavigateLocation _ \<Rightarrow> True
      | NavigateEphemeral _ \<Rightarrow> True
      | NavigateLabelSearch _ \<Rightarrow> True
      | _ \<Rightarrow> False)"


definition platform_succeeds :: "open_env \<Rightarrow> open_env" where
  \<comment> \<open>The same render with platform functions that never fail.\<close>
  "platform_succeeds env =
     env\<lparr>openFilePaths := map_option (\<lambda>_ _. True) (openFilePaths env),
          openEphemeralFiles := map_option (\<lambda>_ _. True) (openEphemeralFiles env)\<rparr>"

definition example_uniqueId :: "ExplorerItem \<Rightarrow> string" where
  "example_uniqueId it =
     (case it of
        Path filePath \<Rightarrow> ''path-'' @ fp_name filePath
      | Object file_paths \<Rightarrow> ''object-'' @ concat (map fp_name file_paths)
      | Location l \<Rightarrow> ''location''
      | NonIndexedPath n \<Rightarrow> nip_path n
      | SpacedropPeer name \<Rightarrow> name
      | Label l \<Rightarrow> ''label'')"

definition example_open_env :: "open_setting \<Rightarrow> bool \<Rightarrow> open_env" where
  \<comment> \<open>A platform that has both open functions; they succeed or fail as told.\<close>
  "example_open_env setting succeeds =
     \<lparr>item_uniqueId = example_uniqueId,
      isPath = (\<lambda>it. case it of Path _ \<Rightarrow> True | _ \<Rightarrow> False),
      openOnDoubleClick = setting,
      openFilePaths = Some (\<lambda>_. succeeds),
      openEphemeralFiles = Some (\<lambda>_. succeeds)\<rparr>"

definition example_dir :: "string \<Rightarrow> FilePath" where
  "example_dir name =
     \<lparr>fp_id = 1, fp_object_id = None, fp_is_dir = True,
      fp_materialized_path = ''/photos/'', fp_name = name\<rparr>"

definition example_file :: "int \<Rightarrow> string \<Rightarrow> FilePath" where
  "example_file n name =
     \<lparr>fp_id = n, fp_object_id = Some n, fp_is_dir = False,
      fp_materialized_path = ''/photos/'', fp_name = name\<rparr>"

definition example_selection :: "ExplorerItem list \<Rightarrow> ExplorerItem option \<Rightarrow> ExplorerItem grid_state" where
  "example_selection sel anchor =
     \<lparr>selectedItems = sel,
      selecto = None,
      selectoUnselected = {},
      selectoFirstColumn = None,
      selectoLastColumn = None,
      activeItem = anchor,
      dragFromThumbnail = False,
      isDragSelecting = False,
      quickPreviewOpen = False,
      quickPreviewItemIndex = 0\<rparr>"

section \<open>The indices of a column drag, in the words of the specification\<close>

definition spec_drag_indices :: "drag_y \<Rightarrow> int \<Rightarrow> int \<Rightarrow> int \<Rightarrow> int list" where
  \<comment> \<open>The specification: the implied items are those at \<open>index \<plusminus> k * columnCount\<close>
      for \<open>k = 1, ..., itemsInDragCount\<close>, above the first item for a drag downwards
      and below it for a drag upwards. They are listed in the order of the grid.\<close>
  "spec_drag_indices dy firstIndex n columnCount =
     map (\<lambda>k. firstIndex + (if dy = DragDown then - k else k) * columnCount)
       (if dy = DragDown then rev [1..n] else [1..n])"

section \<open>A concrete drag for the scenarios\<close>

definition example_drag :: select_event where
  \<comment> \<open>A drag in a grid of 4 columns (items of 100 by 100, gap 10) from (120, 150),
      inside item 5, to (160, 500), inside item 17; only the element of item 17 is
      mounted and has entered the rectangle.\<close>
  "example_drag =
     \<lparr>inputEvent_x = 160,
      inputEvent_y = 500,
      inputEvent_shiftKey = False,
      added = [example_element 4 17],
      removed = [],
      e_rect = \<lparr>rect_top = 150, rect_bottom = 500, rect_left = 120, rect_right = 160\<rparr>\<rparr>"

section \<open>Keyboard navigation: properties\<close>

lemma js_set_of_single: "js_set_of [x] = [x]"
  by (simp add: js_set_of_def set_add_def)

lemma js_set_of_Nil: "js_set_of [] = []"
  by (simp add: js_set_of_def)

lemma selectedItems_setSelectedTargets:
  "selectedItems (setSelectedTargets ts s) = selectedItems s"
  by (simp add: setSelectedTargets_def split: option.splits)

lemma activeItem_setSelectedTargets:
  "activeItem (setSelectedTargets ts s) = activeItem s"
  by (simp add: setSelectedTargets_def split: option.splits)

lemma keyboardHandler_replace:
  assumes "selectable env"
    and "grid_getItem env newIndex = Some g" and "gi_data g = Some d"
    and "allowMultiSelect env \<Longrightarrow> getElementById env (uniqueId env d) \<noteq> None"
    and "\<not> allowMultiSelect env \<or> \<not> shiftKey \<or> quickPreviewOpen s"
  shows "selectedItems (keyboardHandler env shiftKey newIndex s) = [d]
       \<and> activeItem (keyboardHandler env shiftKey newIndex s) = Some d"
  using assms
  by (auto simp: keyboardHandler_def resetSelectedItems_def js_set_of_single Let_def
      selectedItems_setSelectedTargets activeItem_setSelectedTargets
      split: option.splits)

lemma keyboardHandler_noop_unmounted:
  assumes "allowMultiSelect env"
    and "grid_getItem env newIndex = Some g" and "gi_data g = Some d"
    and "getElementById env (uniqueId env d) = None"
  shows "keyboardHandler env shiftKey newIndex s = s"
  using assms by (simp add: keyboardHandler_def)

lemma keyboardHandler_noop_missing:
  assumes "grid_getItem env newIndex = None \<or> (\<exists>g. grid_getItem env newIndex = Some g \<and> gi_data g = None)"
  shows "keyboardHandler env shiftKey newIndex s = s"
  using assms by (auto simp: keyboardHandler_def)

lemma explorerArrow_nav:
  assumes "selectable env" "\<not> isAnyDialogOpen env"
    and "key = ArrowDown \<longrightarrow> selectedItems s \<noteq> []"
    and "getGridItemHandler env key s = Some newIndex"
  shows "explorerArrow env key shiftKey s = keyboardHandler env shiftKey newIndex s"
  using assms by (auto simp: explorerArrow_def explorerDown_def)

lemma explorerArrow_blocked:
  assumes "\<not> selectable env \<or> isAnyDialogOpen env"
  shows "explorerArrow env key shiftKey s = s"
  using assms by (auto simp: explorerArrow_def explorerDown_def)

text \<open>
  C10. In multi-select mode an arrow keypress whose target item exists at the
  computed index while no element is mounted for it changes nothing: the whole
  state, and so the selection and the active item, stays as it was. The same holds
  for ArrowDown on an empty selection when no element is mounted for item 0.
\<close>

theorem arrow_unmounted_target_is_noop:
  "(allowMultiSelect env \<and> (key = ArrowDown \<longrightarrow> selectedItems s \<noteq> [])
      \<and> getGridItemHandler env key s = Some newIndex
      \<and> grid_getItem env newIndex = Some g \<and> gi_data g = Some d
      \<and> getElementById env (uniqueId env d) = None
     \<longrightarrow> explorerArrow env key shiftKey s = s)
   \<and> (selectedItems s = []
      \<and> grid_getItem env 0 = Some g' \<and> gi_data g' = Some d'
      \<and> getElementById env (uniqueId env d') = None
     \<longrightarrow> explorerArrow env ArrowDown shiftKey s = s)"
proof (intro conjI impI)
  assume h: "allowMultiSelect env \<and> (key = ArrowDown \<longrightarrow> selectedItems s \<noteq> [])
      \<and> getGridItemHandler env key s = Some newIndex
      \<and> grid_getItem env newIndex = Some g \<and> gi_data g = Some d
      \<and> getElementById env (uniqueId env d) = None"
  show "explorerArrow env key shiftKey s = s"
  proof (cases "selectable env \<and> \<not> isAnyDialogOpen env")
    case True
    with h have "explorerArrow env key shiftKey s = keyboardHandler env shiftKey newIndex s"
      by (simp add: explorerArrow_nav)
    with h show ?thesis by (simp add: keyboardHandler_noop_unmounted)
  next
    case False
    then show ?thesis by (simp add: explorerArrow_blocked)
  qed
next
  assume "selectedItems s = []
      \<and> grid_getItem env 0 = Some g' \<and> gi_data g' = Some d'
      \<and> getElementById env (uniqueId env d') = None"
  then show "explorerArrow env ArrowDown shiftKey s = s"
    by (simp add: explorerArrow_def explorerDown_def)
qed

theorem arrow_unmounted_target_is_noop_witness:
  "allowMultiSelect (example_env True 5 20 [])
   \<and> selectedItems (example_state [7] (Some 7) (Some [])) \<noteq> []
   \<and> getGridItemHandler (example_env True 5 20 []) ArrowDown (example_state [7] (Some 7) (Some [])) = Some 12
   \<and> map_option gi_data (grid_getItem (example_env True 5 20 []) 12) = Some (Some 12)
   \<and> getElementById (example_env True 5 20 []) (uniqueId (example_env True 5 20 []) 12) = None
   \<and> explorerArrow (example_env True 5 20 []) ArrowDown False (example_state [7] (Some 7) (Some []))
       = example_state [7] (Some 7) (Some [])
   \<and> selectedItems (example_state [] None (Some [])) = []
   \<and> map_option gi_data (grid_getItem (example_env True 5 20 []) 0) = Some (Some 0)
   \<and> getElementById (example_env True 5 20 []) (uniqueId (example_env True 5 20 []) 0) = None
   \<and> explorerArrow (example_env True 5 20 []) ArrowDown False (example_state [] None (Some []))
       = example_state [] None (Some [])"
proof -
  let ?env = "example_env True 5 20 []"
  let ?s = "example_state [7] (Some 7) (Some [])"
  let ?t = "example_state [] None (Some [])"
  have a: "allowMultiSelect ?env" by code_simp
  have b: "selectedItems ?s \<noteq> []" by (simp add: example_state_def)
  have c: "getGridItemHandler ?env ArrowDown ?s = Some 12" by code_simp
  have "\<exists>g. grid_getItem ?env 12 = Some g \<and> gi_data g = Some 12"
    by (simp add: example_env_def layout_getItem_def)
  then obtain g where g: "grid_getItem ?env 12 = Some g" "gi_data g = Some 12"
    by blast
  have e: "getElementById ?env (uniqueId ?env 12) = None" by code_simp
  have b0: "selectedItems ?t = []" by code_simp
  have "\<exists>g. grid_getItem ?env 0 = Some g \<and> gi_data g = Some 0"
    by (simp add: example_env_def layout_getItem_def)
  then obtain g0 where g0: "grid_getItem ?env 0 = Some g0" "gi_data g0 = Some 0"
    by blast
  have e0: "getElementById ?env (uniqueId ?env 0) = None" by code_simp
  note p1 = arrow_unmounted_target_is_noop
    [where env = ?env and key = ArrowDown and s = ?s and newIndex = 12 and g = g and d = 12
       and shiftKey = False, THEN conjunct1]
  note p2 = arrow_unmounted_target_is_noop
    [where env = ?env and s = ?t and shiftKey = False and g' = g0 and d' = 0, THEN conjunct2]
  from p1 p2 a b c g e b0 g0 e0
  show ?thesis by simp
qed

lemma getGridItemHandler_index:
  assumes "activeItem s = Some a" "items env = Some its"
    and "findIndex (\<lambda>item. item = a) its = Some i" "grid_getItem env (int i) = Some g"
  shows "getGridItemHandler env key s
     = Some (case key of
               ArrowUp \<Rightarrow> gi_index g - grid_columnCount env
             | ArrowDown \<Rightarrow> gi_index g + grid_columnCount env
             | ArrowLeft \<Rightarrow> gi_index g - 1
             | ArrowRight \<Rightarrow> gi_index g + 1)"
  using assms by (simp add: getGridItemHandler_def)

text \<open>
  C2, as the code has it. An arrow keypress whose computed index has no item (the
  grid has no item there, or the item has no data) changes nothing. The computed
  index is the index of the active item minus the column count for ArrowUp, plus the
  column count for ArrowDown, minus 1 for ArrowLeft and plus 1 for ArrowRight,
  whatever the column of the active item: there is no test of the column. So
  ArrowLeft from column 0 of a later row targets the last item of the row above, and
  an unshifted ArrowLeft selects that item and makes it the active one when it
  exists and, with multi-select enabled, an element is mounted for it.
\<close>

theorem arrow_without_item_is_noop:
  "(getGridItemHandler env key s = Some newIndex
      \<and> (key = ArrowDown \<longrightarrow> selectedItems s \<noteq> [])
      \<and> (grid_getItem env newIndex = None
          \<or> (\<exists>g. grid_getItem env newIndex = Some g \<and> gi_data g = None))
     \<longrightarrow> explorerArrow env key shiftKey s = s)
   \<and> (activeItem s = Some a \<and> items env = Some its
      \<and> findIndex (\<lambda>item. item = a) its = Some i \<and> grid_getItem env (int i) = Some g'
     \<longrightarrow> getGridItemHandler env key s
          = Some (case key of
                    ArrowUp \<Rightarrow> gi_index g' - grid_columnCount env
                  | ArrowDown \<Rightarrow> gi_index g' + grid_columnCount env
                  | ArrowLeft \<Rightarrow> gi_index g' - 1
                  | ArrowRight \<Rightarrow> gi_index g' + 1))
   \<and> (selectable env \<and> \<not> isAnyDialogOpen env
      \<and> getGridItemHandler env ArrowLeft s = Some m
      \<and> grid_getItem env m = Some h \<and> gi_data h = Some d
      \<and> (allowMultiSelect env \<longrightarrow> getElementById env (uniqueId env d) \<noteq> None)
     \<longrightarrow> selectedItems (explorerArrow env ArrowLeft False s) = [d]
       \<and> activeItem (explorerArrow env ArrowLeft False s) = Some d)"
proof (intro conjI impI)
  assume h: "getGridItemHandler env key s = Some newIndex
      \<and> (key = ArrowDown \<longrightarrow> selectedItems s \<noteq> [])
      \<and> (grid_getItem env newIndex = None
          \<or> (\<exists>g. grid_getItem env newIndex = Some g \<and> gi_data g = None))"
  show "explorerArrow env key shiftKey s = s"
  proof (cases "selectable env \<and> \<not> isAnyDialogOpen env")
    case True
    with h have "explorerArrow env key shiftKey s = keyboardHandler env shiftKey newIndex s"
      by (simp add: explorerArrow_nav)
    with h show ?thesis by (simp add: keyboardHandler_noop_missing)
  next
    case False
    then show ?thesis by (simp add: explorerArrow_blocked)
  qed
next
  assume "activeItem s = Some a \<and> items env = Some its
      \<and> findIndex (\<lambda>item. item = a) its = Some i \<and> grid_getItem env (int i) = Some g'"
  then show "getGridItemHandler env key s
          = Some (case key of
                    ArrowUp \<Rightarrow> gi_index g' - grid_columnCount env
                  | ArrowDown \<Rightarrow> gi_index g' + grid_columnCount env
                  | ArrowLeft \<Rightarrow> gi_index g' - 1
                  | ArrowRight \<Rightarrow> gi_index g' + 1)"
    by (simp add: getGridItemHandler_index)
next
  assume h: "selectable env \<and> \<not> isAnyDialogOpen env
      \<and> getGridItemHandler env ArrowLeft s = Some m
      \<and> grid_getItem env m = Some h \<and> gi_data h = Some d
      \<and> (allowMultiSelect env \<longrightarrow> getElementById env (uniqueId env d) \<noteq> None)"
  then have e: "explorerArrow env ArrowLeft False s = keyboardHandler env False m s"
    by (simp add: explorerArrow_nav)
  have "selectedItems (keyboardHandler env False m s) = [d]
       \<and> activeItem (keyboardHandler env False m s) = Some d"
    using h by (intro keyboardHandler_replace) auto
  with e show "selectedItems (explorerArrow env ArrowLeft False s) = [d]"
    and "activeItem (explorerArrow env ArrowLeft False s) = Some d" by simp_all
qed

theorem arrow_without_item_is_noop_witness:
  "getGridItemHandler (example_env False 4 8 []) ArrowLeft (example_state [0] (Some 0) None) = Some (- 1)
   \<and> selectedItems (example_state [0] (Some 0) None) \<noteq> []
   \<and> grid_getItem (example_env False 4 8 []) (- 1) = None
   \<and> explorerArrow (example_env False 4 8 []) ArrowLeft False (example_state [0] (Some 0) None)
       = example_state [0] (Some 0) None
   \<and> activeItem (example_state [4] (Some 4) None) = Some 4
   \<and> items (example_env False 4 8 []) = Some [0..<8]
   \<and> findIndex (\<lambda>item. item = 4) [0..<8] = Some 4
   \<and> map_option gi_column (grid_getItem (example_env False 4 8 []) 4) = Some 0
   \<and> getGridItemHandler (example_env False 4 8 []) ArrowLeft (example_state [4] (Some 4) None) = Some 3
   \<and> getGridItemHandler (example_env False 4 8 []) ArrowRight (example_state [4] (Some 4) None) = Some 5
   \<and> getGridItemHandler (example_env False 4 8 []) ArrowUp (example_state [4] (Some 4) None) = Some 0
   \<and> getGridItemHandler (example_env False 4 8 []) ArrowDown (example_state [4] (Some 4) None) = Some 8
   \<and> selectedItems (explorerArrow (example_env False 4 8 []) ArrowLeft False
        (example_state [4] (Some 4) None)) = [3]
   \<and> activeItem (explorerArrow (example_env False 4 8 []) ArrowLeft False
        (example_state [4] (Some 4) None)) = Some 3"
proof -
  define env :: "nat view_env" where "env = example_env False 4 8 []"
  define s :: "nat grid_state" where "s = example_state [0] (Some 0) None"
  define t :: "nat grid_state" where "t = example_state [4] (Some 4) None"
  have a: "getGridItemHandler env ArrowLeft s = Some (- 1)" unfolding env_def s_def by code_simp
  have b: "selectedItems s \<noteq> []" by (simp add: s_def example_state_def)
  have c: "grid_getItem env (- 1) = None" by (simp add: env_def example_env_def layout_getItem_def)
  have d: "activeItem t = Some 4" by (simp add: t_def example_state_def)
  have e: "items env = Some [0..<8]" "grid_columnCount env = 4" "selectable env"
    "\<not> isAnyDialogOpen env" "\<not> allowMultiSelect env"
    by (simp_all add: env_def example_env_def)
  have f: "findIndex (\<lambda>item. item = 4) [0..<8] = Some (4::nat)" by code_simp
  have "\<exists>g. grid_getItem env (int 4) = Some g \<and> gi_index g = 4 \<and> gi_column g = 0"
    by (simp add: env_def example_env_def layout_getItem_def)
  then obtain g where g: "grid_getItem env (int 4) = Some g" "gi_index g = 4" "gi_column g = 0"
    by blast
  have "\<exists>h. grid_getItem env 3 = Some h \<and> gi_data h = Some 3"
    by (simp add: env_def example_env_def layout_getItem_def)
  then obtain h where h: "grid_getItem env 3 = Some h" "gi_data h = Some 3" by blast
  note p1 = arrow_without_item_is_noop
    [where env = env and key = ArrowLeft and s = s and newIndex = "- 1" and shiftKey = False,
     THEN conjunct1]
  from p1 a b c have r1: "explorerArrow env ArrowLeft False s = s" by simp
  have r2: "getGridItemHandler env ArrowLeft t = Some 3"
    using arrow_without_item_is_noop
      [where env = env and key = ArrowLeft and s = t and a = 4 and its = "[0..<8]" and i = 4
         and g' = g, THEN conjunct2, THEN conjunct1] d e f g by simp
  have r3: "getGridItemHandler env ArrowRight t = Some 5"
    using arrow_without_item_is_noop
      [where env = env and key = ArrowRight and s = t and a = 4 and its = "[0..<8]" and i = 4
         and g' = g, THEN conjunct2, THEN conjunct1] d e f g by simp
  have r4: "getGridItemHandler env ArrowUp t = Some 0"
    using arrow_without_item_is_noop
      [where env = env and key = ArrowUp and s = t and a = 4 and its = "[0..<8]" and i = 4
         and g' = g, THEN conjunct2, THEN conjunct1] d e f g by simp
  have r5: "getGridItemHandler env ArrowDown t = Some 8"
    using arrow_without_item_is_noop
      [where env = env and key = ArrowDown and s = t and a = 4 and its = "[0..<8]" and i = 4
         and g' = g, THEN conjunct2, THEN conjunct1] d e f g by simp
  note p3 = arrow_without_item_is_noop
    [where env = env and s = t and m = 3 and h = h and d = 3, THEN conjunct2, THEN conjunct2]
  from p3 e r2 h have r6: "selectedItems (explorerArrow env ArrowLeft False t) = [3]
      \<and> activeItem (explorerArrow env ArrowLeft False t) = Some 3" by simp
  have col: "map_option gi_column (grid_getItem env 4) = Some 0"
    using g by simp
  from a b c r1 d e(1) f col r2 r3 r4 r5 r6 show ?thesis
    unfolding env_def s_def t_def by simp
qed

text \<open>
  C2 as stated fails: in a grid of 4 columns the active item 4 stands in column 0 of
  the second row, and ArrowLeft moves the selection to item 3, the last item of the
  row above.
\<close>

theorem left_at_column_0_wraps_counterexample:
  "map_option gi_column (grid_getItem (example_env False 4 8 []) 4) = Some 0
   \<and> selectedItems (example_state [4] (Some 4) None) = [4]
   \<and> selectedItems (explorerArrow (example_env False 4 8 []) ArrowLeft False
        (example_state [4] (Some 4) None)) = [3]"
  by code_simp

text \<open>
  C6, as the code has it. An arrow keypress without shift, or with multi-select
  disabled, replaces the selection with exactly the item at the computed index and
  makes it the active item, provided that item exists and, when multi-select is
  enabled, an element is mounted for it.
\<close>

theorem arrow_replaces_selection:
  assumes "selectable env" and "\<not> isAnyDialogOpen env"
    and "key = ArrowDown \<longrightarrow> selectedItems s \<noteq> []"
    and "getGridItemHandler env key s = Some newIndex"
    and "grid_getItem env newIndex = Some g" and "gi_data g = Some d"
    and "\<not> shiftKey \<or> \<not> allowMultiSelect env"
    and "allowMultiSelect env \<longrightarrow> getElementById env (uniqueId env d) \<noteq> None"
  shows "selectedItems (explorerArrow env key shiftKey s) = [d]
       \<and> activeItem (explorerArrow env key shiftKey s) = Some d"
proof -
  have "explorerArrow env key shiftKey s = keyboardHandler env shiftKey newIndex s"
    using assms(1-4) by (simp add: explorerArrow_nav)
  moreover have "selectedItems (keyboardHandler env shiftKey newIndex s) = [d]
       \<and> activeItem (keyboardHandler env shiftKey newIndex s) = Some d"
    using assms by (intro keyboardHandler_replace) auto
  ultimately show ?thesis by simp
qed

theorem arrow_replaces_selection_witness:
  "selectedItems (explorerArrow (example_env False 5 20 []) ArrowDown False
      (example_state [7] (Some 7) None)) = [12]
   \<and> activeItem (explorerArrow (example_env False 5 20 []) ArrowDown False
      (example_state [7] (Some 7) None)) = Some 12
   \<and> selectedItems (explorerArrow (example_env True 5 20 [example_element 5 12]) ArrowDown False
      (example_state [7] (Some 7) (Some [example_element 5 7]))) = [12]
   \<and> activeItem (explorerArrow (example_env True 5 20 [example_element 5 12]) ArrowDown False
      (example_state [7] (Some 7) (Some [example_element 5 7]))) = Some 12"
proof -
  let ?env = "example_env False 5 20 []"
  let ?s = "example_state [7] (Some 7) None"
  let ?env' = "example_env True 5 20 [example_element 5 12]"
  let ?t = "example_state [7] (Some 7) (Some [example_element 5 7])"
  have a: "selectable ?env" "\<not> isAnyDialogOpen ?env" "\<not> allowMultiSelect ?env"
    by (simp_all add: example_env_def)
  have a': "selectable ?env'" "\<not> isAnyDialogOpen ?env'" "allowMultiSelect ?env'"
    by (simp_all add: example_env_def)
  have b: "selectedItems ?s \<noteq> []" "selectedItems ?t \<noteq> []" by (simp_all add: example_state_def)
  have c: "getGridItemHandler ?env ArrowDown ?s = Some 12" by code_simp
  have c': "getGridItemHandler ?env' ArrowDown ?t = Some 12" by code_simp
  have "\<exists>g. grid_getItem ?env 12 = Some g \<and> gi_data g = Some 12"
    by (simp add: example_env_def layout_getItem_def)
  then obtain g where g: "grid_getItem ?env 12 = Some g" "gi_data g = Some 12" by blast
  have "\<exists>g. grid_getItem ?env' 12 = Some g \<and> gi_data g = Some 12"
    by (simp add: example_env_def layout_getItem_def)
  then obtain g' where g': "grid_getItem ?env' 12 = Some g'" "gi_data g' = Some 12" by blast
  have e: "getElementById ?env' (uniqueId ?env' 12) \<noteq> None" by code_simp
  have p1: "selectedItems (explorerArrow ?env ArrowDown False ?s) = [12]
       \<and> activeItem (explorerArrow ?env ArrowDown False ?s) = Some 12"
    using a b c g by (intro arrow_replaces_selection [where newIndex = 12 and g = g]) simp_all
  have p2: "selectedItems (explorerArrow ?env' ArrowDown False ?t) = [12]
       \<and> activeItem (explorerArrow ?env' ArrowDown False ?t) = Some 12"
    using a' b c' g' e by (intro arrow_replaces_selection [where newIndex = 12 and g = g']) simp_all
  from p1 p2 show ?thesis by simp
qed

text \<open>
  C6 as stated fails: with 20 items, 5 columns, item 7 selected and multi-select
  enabled, ArrowDown leaves the selection at item 7 when no element is mounted for
  item 12.
\<close>

theorem arrow_unmounted_keeps_selection_counterexample:
  "selectedItems (explorerArrow (example_env True 5 20 [example_element 5 7]) ArrowDown False
      (example_state [7] (Some 7) (Some [example_element 5 7]))) = [7]
   \<and> activeItem (explorerArrow (example_env True 5 20 [example_element 5 7]) ArrowDown False
      (example_state [7] (Some 7) (Some [example_element 5 7]))) = Some 7"
  by code_simp

text \<open>
  C3, as the code has it. While the quick preview is open, a shift+arrow keypress in
  multi-select mode does not extend the selection: it replaces it with the target
  item, which becomes the active item.
\<close>

theorem shift_arrow_in_quick_preview_replaces:
  assumes "selectable env" and "\<not> isAnyDialogOpen env"
    and "allowMultiSelect env" and "quickPreviewOpen s"
    and "key = ArrowDown \<longrightarrow> selectedItems s \<noteq> []"
    and "getGridItemHandler env key s = Some newIndex"
    and "grid_getItem env newIndex = Some g" and "gi_data g = Some d"
    and "getElementById env (uniqueId env d) \<noteq> None"
  shows "selectedItems (explorerArrow env key True s) = [d]
       \<and> activeItem (explorerArrow env key True s) = Some d"
proof -
  have "explorerArrow env key True s = keyboardHandler env True newIndex s"
    using assms(1,2,5,6) by (simp add: explorerArrow_nav)
  moreover have "selectedItems (keyboardHandler env True newIndex s) = [d]
       \<and> activeItem (keyboardHandler env True newIndex s) = Some d"
    using assms by (intro keyboardHandler_replace) auto
  ultimately show ?thesis by simp
qed

theorem shift_arrow_in_quick_preview_replaces_witness:
  "quickPreviewOpen ((example_state [3] (Some 3) (Some [example_element 4 3]))\<lparr>quickPreviewOpen := True\<rparr>)
   \<and> selectedItems (explorerArrow (example_env True 4 8 [example_element 4 3, example_element 4 4])
        ArrowRight True
        ((example_state [3] (Some 3) (Some [example_element 4 3]))\<lparr>quickPreviewOpen := True\<rparr>)) = [4]
   \<and> activeItem (explorerArrow (example_env True 4 8 [example_element 4 3, example_element 4 4])
        ArrowRight True
        ((example_state [3] (Some 3) (Some [example_element 4 3]))\<lparr>quickPreviewOpen := True\<rparr>)) = Some 4"
proof -
  let ?env = "example_env True 4 8 [example_element 4 3, example_element 4 4]"
  let ?s = "(example_state [3] (Some 3) (Some [example_element 4 3]))\<lparr>quickPreviewOpen := True\<rparr>"
  have a: "selectable ?env" "\<not> isAnyDialogOpen ?env" "allowMultiSelect ?env"
    by (simp_all add: example_env_def)
  have b: "quickPreviewOpen ?s" by simp
  have c: "getGridItemHandler ?env ArrowRight ?s = Some 4" by code_simp
  have "\<exists>g. grid_getItem ?env 4 = Some g \<and> gi_data g = Some 4"
    by (simp add: example_env_def layout_getItem_def)
  then obtain g where g: "grid_getItem ?env 4 = Some g" "gi_data g = Some 4" by blast
  have e: "getElementById ?env (uniqueId ?env 4) \<noteq> None" by code_simp
  have "selectedItems (explorerArrow ?env ArrowRight True ?s) = [4]
       \<and> activeItem (explorerArrow ?env ArrowRight True ?s) = Some 4"
    using a b c g e
    by (intro shift_arrow_in_quick_preview_replaces [where newIndex = 4 and g = g]) simp_all
  with b show ?thesis by simp
qed

text \<open>
  C3 as stated fails: with selection and active item 3 and the quick preview open,
  shift+ArrowRight leaves the selection at item 4, not at item 3.
\<close>

theorem shift_arrow_in_quick_preview_counterexample:
  "selectedItems ((example_state [3] (Some 3) (Some [example_element 4 3]))\<lparr>quickPreviewOpen := True\<rparr>) = [3]
   \<and> selectedItems (explorerArrow (example_env True 4 8 [example_element 4 3, example_element 4 4])
        ArrowRight True
        ((example_state [3] (Some 3) (Some [example_element 4 3]))\<lparr>quickPreviewOpen := True\<rparr>)) = [4]"
  by code_simp

lemma keyboardHandler_single:
  assumes "\<not> allowMultiSelect env" and "length (selectedItems s) \<le> 1"
  shows "length (selectedItems (keyboardHandler env shiftKey newIndex s)) \<le> 1"
  using assms
  by (auto simp: keyboardHandler_def resetSelectedItems_def js_set_of_single split: option.splits)

lemma explorerDown_single:
  assumes "\<not> allowMultiSelect env" and "length (selectedItems s) \<le> 1"
  shows "length (selectedItems (explorerDown env shiftKey s)) \<le> 1"
  using assms
  by (auto simp: explorerDown_def resetSelectedItems_def js_set_of_single
      selectedItems_setSelectedTargets simp del: One_nat_def
      intro: keyboardHandler_single split: option.splits)

lemma explorerArrow_single:
  assumes "\<not> allowMultiSelect env" and "length (selectedItems s) \<le> 1"
  shows "length (selectedItems (explorerArrow env key shiftKey s)) \<le> 1"
  using assms
  by (auto simp: explorerArrow_def simp del: One_nat_def
      intro: keyboardHandler_single explorerDown_single split: option.splits)

lemma explorerEscape_single:
  assumes "length (selectedItems s) \<le> 1"
  shows "length (selectedItems (explorerEscape env s)) \<le> 1"
  using assms
  by (auto simp: explorerEscape_def resetSelectedItems_def js_set_of_Nil
      selectedItems_setSelectedTargets)

lemma onMouseDown_single:
  assumes "\<not> allowMultiSelect env" and "length (selectedItems s) \<le> 1"
  shows "length (selectedItems (onMouseDown env index button s)) \<le> 1"
  using assms
  by (auto simp: onMouseDown_def resetSelectedItems_def js_set_of_single split: option.splits)

lemma handle_event_single:
  assumes "\<not> allowMultiSelect env" and "length (selectedItems s) \<le> 1"
  shows "length (selectedItems (handle_event env ev s)) \<le> 1"
  using assms
  by (cases ev)
    (simp_all add: explorerArrow_single explorerEscape_single onMouseDown_single
      del: One_nat_def)

lemma run_events_single:
  assumes "\<forall>p \<in> set evs. \<not> allowMultiSelect (fst p)" and "length (selectedItems s) \<le> 1"
  shows "length (selectedItems (run_events evs s)) \<le> 1"
  using assms
proof (induction evs arbitrary: s)
  case Nil
  then show ?case by simp
next
  case (Cons p evs)
  obtain env ev where p: "p = (env, ev)" by (cases p)
  with Cons.prems have "length (selectedItems (handle_event env ev s)) \<le> 1"
    by (simp add: handle_event_single del: One_nat_def)
  with Cons p show ?case by (simp del: One_nat_def)
qed

lemma onMouseDown_selects:
  assumes "\<not> allowMultiSelect env" and "selectable env"
    and "grid_getItem env i = Some g" and "gi_data g = Some d"
  shows "selectedItems (onMouseDown env i 0 s) = [d]"
  using assms by (simp add: onMouseDown_def resetSelectedItems_def js_set_of_single)

text \<open>
  C7. With multi-select disabled, any sequence of arrow keypresses, escapes and
  mouse-downs on items keeps the selection at one member at most, and a mouse-down
  or an arrow keypress on an existing item selects exactly that item.
\<close>

theorem single_select_invariant:
  "((\<forall>p \<in> set evs. \<not> allowMultiSelect (fst p)) \<and> length (selectedItems s) \<le> 1
     \<longrightarrow> length (selectedItems (run_events evs s)) \<le> 1)
   \<and> (\<not> allowMultiSelect env \<and> selectable env
      \<and> grid_getItem env i = Some g \<and> gi_data g = Some d
     \<longrightarrow> selectedItems (handle_event env (MouseDown i 0) s) = [d]
       \<and> (\<not> isAnyDialogOpen env \<and> (key = ArrowDown \<longrightarrow> selectedItems s \<noteq> [])
          \<and> getGridItemHandler env key s = Some i
         \<longrightarrow> selectedItems (handle_event env (KeyArrow key shiftKey) s) = [d]))"
proof (intro conjI impI)
  assume "(\<forall>p \<in> set evs. \<not> allowMultiSelect (fst p)) \<and> length (selectedItems s) \<le> 1"
  then show "length (selectedItems (run_events evs s)) \<le> 1"
    by (simp add: run_events_single del: One_nat_def)
next
  assume "\<not> allowMultiSelect env \<and> selectable env
      \<and> grid_getItem env i = Some g \<and> gi_data g = Some d"
  then show "selectedItems (handle_event env (MouseDown i 0) s) = [d]"
    by (simp add: onMouseDown_selects)
next
  assume h: "\<not> allowMultiSelect env \<and> selectable env
      \<and> grid_getItem env i = Some g \<and> gi_data g = Some d"
    and k: "\<not> isAnyDialogOpen env \<and> (key = ArrowDown \<longrightarrow> selectedItems s \<noteq> [])
          \<and> getGridItemHandler env key s = Some i"
  then have "explorerArrow env key shiftKey s = keyboardHandler env shiftKey i s"
    by (simp add: explorerArrow_nav)
  moreover have "selectedItems (keyboardHandler env shiftKey i s) = [d]"
    using h by (intro conjunct1 [OF keyboardHandler_replace]) auto
  ultimately show "selectedItems (handle_event env (KeyArrow key shiftKey) s) = [d]"
    by simp
qed

theorem single_select_invariant_witness:
  "\<not> allowMultiSelect (example_env False 5 20 [])
   \<and> length (selectedItems (example_state [] None None)) \<le> 1
   \<and> selectedItems (run_events
        [(example_env False 5 20 [], MouseDown 7 0),
         (example_env False 5 20 [], KeyArrow ArrowDown True),
         (example_env False 5 20 [], KeyArrow ArrowRight True)]
        (example_state [] None None)) = [13]
   \<and> length (selectedItems (run_events
        [(example_env False 5 20 [], MouseDown 7 0),
         (example_env False 5 20 [], KeyArrow ArrowDown True),
         (example_env False 5 20 [], KeyArrow ArrowRight True)]
        (example_state [] None None))) \<le> 1
   \<and> selectedItems (handle_event (example_env False 5 20 []) (MouseDown 7 0)
        (example_state [3] (Some 3) None)) = [7]
   \<and> selectedItems (handle_event (example_env False 5 20 []) (KeyArrow ArrowDown True)
        (example_state [2] (Some 2) None)) = [7]"
proof -
  let ?env = "example_env False 5 20 []"
  let ?evs = "[(?env, MouseDown 7 0), (?env, KeyArrow ArrowDown True),
               (?env, KeyArrow ArrowRight True)]"
  let ?s = "example_state [] None None"
  let ?t = "example_state [3] (Some 3) None"
  let ?u = "example_state [2] (Some 2) None"
  have a: "\<not> allowMultiSelect ?env" "selectable ?env" "\<not> isAnyDialogOpen ?env"
    by (simp_all add: example_env_def)
  have b: "length (selectedItems ?s) \<le> 1" by (simp add: example_state_def)
  have c: "selectedItems (run_events ?evs ?s) = [13]" by code_simp
  have "\<exists>g. grid_getItem ?env 7 = Some g \<and> gi_data g = Some 7"
    by (simp add: example_env_def layout_getItem_def)
  then obtain g where g: "grid_getItem ?env 7 = Some g" "gi_data g = Some 7" by blast
  have d: "selectedItems ?u \<noteq> []" by (simp add: example_state_def)
  have e: "getGridItemHandler ?env ArrowDown ?u = Some 7" by code_simp
  note p1 = single_select_invariant [where evs = ?evs and s = ?s, THEN conjunct1]
  note p2 = single_select_invariant
    [where env = ?env and i = 7 and g = g and d = 7 and s = ?t, THEN conjunct2]
  note p3 = single_select_invariant
    [where env = ?env and i = 7 and g = g and d = 7 and s = ?u and key = ArrowDown
       and shiftKey = True, THEN conjunct2]
  from p1 a b have q1: "length (selectedItems (run_events ?evs ?s)) \<le> 1" by simp
  from p2 a g have q2: "selectedItems (handle_event ?env (MouseDown 7 0) ?t) = [7]" by simp
  from p3 a g d e have q3: "selectedItems (handle_event ?env (KeyArrow ArrowDown True) ?u) = [7]"
    by simp
  from a b c q1 q2 q3 show ?thesis by simp
qed

text \<open>
  C8. From a non-empty selection in a selectable view, the escape shortcut followed
  by the effects on the changed selection leaves the selection empty, the selected
  targets of the drag-select widget empty and no active item.
\<close>

theorem escape_clears_selection:
  assumes "selectable env" and "selectedItems s \<noteq> []"
  shows "selectedItems (selectionEffects env (explorerEscape env s)) = []
       \<and> getSelectedTargets (selectionEffects env (explorerEscape env s)) = []
       \<and> activeItem (selectionEffects env (explorerEscape env s)) = None"
  using assms
  by (simp add: explorerEscape_def selectionEffects_def quickPreviewEffect_def
      activeItemClearingEffect_def resetSelectedItems_def
      js_set_of_Nil setSelectedTargets_def getSelectedTargets_def split: option.splits)

theorem escape_clears_selection_witness:
  "selectable (example_env True 5 20 [example_element 5 7])
   \<and> selectedItems (example_state [7, 8] (Some 8) (Some [example_element 5 7])) \<noteq> []
   \<and> selectedItems (selectionEffects (example_env True 5 20 [example_element 5 7])
        (explorerEscape (example_env True 5 20 [example_element 5 7])
          (example_state [7, 8] (Some 8) (Some [example_element 5 7])))) = []
   \<and> getSelectedTargets (selectionEffects (example_env True 5 20 [example_element 5 7])
        (explorerEscape (example_env True 5 20 [example_element 5 7])
          (example_state [7, 8] (Some 8) (Some [example_element 5 7])))) = []
   \<and> activeItem (selectionEffects (example_env True 5 20 [example_element 5 7])
        (explorerEscape (example_env True 5 20 [example_element 5 7])
          (example_state [7, 8] (Some 8) (Some [example_element 5 7])))) = None"
proof -
  let ?env = "example_env True 5 20 [example_element 5 7]"
  let ?s = "example_state [7, 8] (Some 8) (Some [example_element 5 7])"
  have a: "selectable ?env" by (simp add: example_env_def)
  have b: "selectedItems ?s \<noteq> []" by (simp add: example_state_def)
  from escape_clears_selection [OF a b] a b show ?thesis by simp
qed

section \<open>Drag end: properties\<close>

lemma least_fold:
  fixes env :: "'a view_env"
  defines "pool acc els \<equiv> set_option acc \<union> set (List.map_filter (getElementItem env) els)"
  shows "(pool acc els = {} \<longrightarrow> foldl (least_step env) acc els = None)
       \<and> (pool acc els \<noteq> {} \<longrightarrow>
            (\<exists>g \<in> pool acc els. foldl (least_step env) acc els = Some g
                \<and> (\<forall>g' \<in> pool acc els. gi_index g \<le> gi_index g')))"
proof (induction els arbitrary: acc)
  case Nil
  then show ?case by (cases acc) (simp_all add: pool_def map_filter_simps)
next
  case (Cons el els)
  show ?case
  proof (cases "getElementItem env el")
    case None
    then have "pool acc (el # els) = pool acc els"
      by (simp add: pool_def map_filter_simps)
    moreover from None have "least_step env acc el = acc"
      by (simp add: least_step_def)
    ultimately show ?thesis using Cons.IH [of acc] by simp
  next
    case (Some c)
    show ?thesis
    proof (cases acc)
      case None
      with Some have "least_step env acc el = Some c" by (simp add: least_step_def)
      moreover from None Some have "pool acc (el # els) = pool (Some c) els"
        by (simp add: pool_def map_filter_simps)
      ultimately show ?thesis using Cons.IH [of "Some c"] by simp
    next
      case (Some l)
      note acc = this
      show ?thesis
      proof (cases "gi_index c < gi_index l")
        case True
        with \<open>getElementItem env el = Some c\<close> acc
        have st: "least_step env acc el = Some c" by (simp add: least_step_def)
        have pl: "pool acc (el # els) = insert l (pool (Some c) els)"
          using \<open>getElementItem env el = Some c\<close> acc by (auto simp: pool_def map_filter_simps)
        have ne: "pool (Some c) els \<noteq> {}" by (simp add: pool_def)
        with Cons.IH [of "Some c"] obtain g where g: "g \<in> pool (Some c) els"
          "foldl (least_step env) (Some c) els = Some g"
          "\<forall>g' \<in> pool (Some c) els. gi_index g \<le> gi_index g'" by blast
        have "c \<in> pool (Some c) els" by (simp add: pool_def)
        with g True have "gi_index g \<le> gi_index l" by force
        with g st pl show ?thesis by auto
      next
        case False
        with \<open>getElementItem env el = Some c\<close> acc
        have st: "least_step env acc el = Some l" by (simp add: least_step_def)
        have pl: "pool acc (el # els) = insert c (pool (Some l) els)"
          using \<open>getElementItem env el = Some c\<close> acc by (auto simp: pool_def map_filter_simps)
        have ne: "pool (Some l) els \<noteq> {}" by (simp add: pool_def)
        with Cons.IH [of "Some l"] obtain g where g: "g \<in> pool (Some l) els"
          "foldl (least_step env) (Some l) els = Some g"
          "\<forall>g' \<in> pool (Some l) els. gi_index g \<le> gi_index g'" by blast
        have "l \<in> pool (Some l) els" by (simp add: pool_def)
        with g False have "gi_index g \<le> gi_index c" by force
        with g st pl show ?thesis by auto
      qed
    qed
  qed
qed

lemma getActiveItem_least:
  "(List.map_filter (getElementItem env) els = [] \<longrightarrow> getActiveItem env els = None)
   \<and> (List.map_filter (getElementItem env) els \<noteq> [] \<longrightarrow>
        (\<exists>g \<in> set (List.map_filter (getElementItem env) els).
            (\<forall>g' \<in> set (List.map_filter (getElementItem env) els). gi_index g \<le> gi_index g')
            \<and> getActiveItem env els = gi_data g))"
  using least_fold [of None env els] by (auto simp: getActiveItem_def)

text \<open>
  C5. On drag end the first and last touched column, the drag-from-thumbnail flag and
  the is-drag-selecting flag are cleared, and the active item becomes the data of a
  grid item of least index among the grid items of the selected targets (no active
  item when no selected target has a grid item).
\<close>

theorem drag_end_sets_anchor_and_clears:
  "selectoFirstColumn (handleDragEnd env s) = None
   \<and> selectoLastColumn (handleDragEnd env s) = None
   \<and> \<not> dragFromThumbnail (handleDragEnd env s)
   \<and> \<not> isDragSelecting (handleDragEnd env s)
   \<and> (List.map_filter (getElementItem env) (getSelectedTargets s) = []
        \<longrightarrow> activeItem (handleDragEnd env s) = None)
   \<and> (List.map_filter (getElementItem env) (getSelectedTargets s) \<noteq> [] \<longrightarrow>
        (\<exists>g \<in> set (List.map_filter (getElementItem env) (getSelectedTargets s)).
            (\<forall>g' \<in> set (List.map_filter (getElementItem env) (getSelectedTargets s)).
                gi_index g \<le> gi_index g')
            \<and> activeItem (handleDragEnd env s) = gi_data g))"
proof -
  have t: "getSelectedTargets (s\<lparr>isDragSelecting := False, selectoFirstColumn := None,
              selectoLastColumn := None, dragFromThumbnail := False\<rparr>) = getSelectedTargets s"
    by (simp add: getSelectedTargets_def)
  have a: "activeItem (handleDragEnd env s) = getActiveItem env (getSelectedTargets s)"
    by (simp add: handleDragEnd_def Let_def t)
  show ?thesis
    using getActiveItem_least [of env "getSelectedTargets s"]
    by (simp add: a) (simp add: handleDragEnd_def Let_def)
qed

theorem drag_end_sets_anchor_and_clears_witness:
  "List.map_filter (getElementItem (example_env True 5 20 []))
      (getSelectedTargets
        ((example_state [9, 3, 12] None
            (Some [example_element 5 9, example_element 5 3, example_element 5 12]))
         \<lparr>selectoFirstColumn := Some 3, selectoLastColumn := Some 4,
           dragFromThumbnail := True, isDragSelecting := True\<rparr>)) \<noteq> []
   \<and> activeItem (handleDragEnd (example_env True 5 20 [])
        ((example_state [9, 3, 12] None
            (Some [example_element 5 9, example_element 5 3, example_element 5 12]))
         \<lparr>selectoFirstColumn := Some 3, selectoLastColumn := Some 4,
           dragFromThumbnail := True, isDragSelecting := True\<rparr>)) = Some 3
   \<and> selectoFirstColumn (handleDragEnd (example_env True 5 20 [])
        ((example_state [9, 3, 12] None
            (Some [example_element 5 9, example_element 5 3, example_element 5 12]))
         \<lparr>selectoFirstColumn := Some 3, selectoLastColumn := Some 4,
           dragFromThumbnail := True, isDragSelecting := True\<rparr>)) = None
   \<and> selectoLastColumn (handleDragEnd (example_env True 5 20 [])
        ((example_state [9, 3, 12] None
            (Some [example_element 5 9, example_element 5 3, example_element 5 12]))
         \<lparr>selectoFirstColumn := Some 3, selectoLastColumn := Some 4,
           dragFromThumbnail := True, isDragSelecting := True\<rparr>)) = None"
proof -
  define env :: "nat view_env" where "env = example_env True 5 20 []"
  define s where "s = (example_state [9, 3, 12] None
            (Some [example_element 5 9, example_element 5 3, example_element 5 12]))
         \<lparr>selectoFirstColumn := Some 3, selectoLastColumn := Some 4,
           dragFromThumbnail := True, isDragSelecting := True\<rparr>"
  define gs where "gs = List.map_filter (getElementItem env) (getSelectedTargets s)"
  have b: "map gi_index gs = [9, 3, 12]"
    unfolding gs_def env_def s_def by code_simp
  have c: "map gi_data gs = [Some 9, Some 3, Some 12]"
    unfolding gs_def env_def s_def by code_simp
  from b have "length (map gi_index gs) = 3" by simp
  then have len: "length gs = 3" by simp
  then have a: "gs \<noteq> []" by auto
  note t = drag_end_sets_anchor_and_clears [of env s, folded gs_def]
  from t a obtain g where g: "g \<in> set gs"
    "\<forall>g' \<in> set gs. gi_index g \<le> gi_index g'"
    "activeItem (handleDragEnd env s) = gi_data g"
    by blast
  from g(1) len obtain k where k: "k < 3" "g = gs ! k"
    by (auto simp: in_set_conv_nth)
  from k len have "gi_index g = map gi_index gs ! k" by simp
  with b have ik: "gi_index g = [9, 3, 12] ! k" by simp
  from k len have "gi_data g = map gi_data gs ! k" by simp
  with c have dk: "gi_data g = [Some 9, Some 3, Some 12] ! k" by simp
  have "gs ! 1 \<in> set gs" using len by simp
  with g(2) have "gi_index g \<le> gi_index (gs ! 1)" by blast
  moreover from len have "gi_index (gs ! 1) = map gi_index gs ! 1" by simp
  ultimately have le: "gi_index g \<le> 3" using b by simp
  from k(1) have "k = 0 \<or> k = 1 \<or> k = 2" by arith
  with ik le have "k = 1" by auto
  with dk g(3) have d: "activeItem (handleDragEnd env s) = Some 3" by simp
  from t have e: "selectoFirstColumn (handleDragEnd env s) = None"
    and f: "selectoLastColumn (handleDragEnd env s) = None" by blast+
  from a d e f show ?thesis
    unfolding gs_def env_def s_def by blast
qed

section \<open>The open dispatcher: properties\<close>







lemma open_paths_shape:
  assumes "open_paths env item k b s = (effs, r)"
  shows "filter is_navigation effs = []" and "r \<noteq> None \<Longrightarrow> effs = []"
    and "r = Some s' \<Longrightarrow> openOnDoubleClick env = quickPreview \<and> quickPreviewOpen s'"
    and "openOnDoubleClick env = openFile \<Longrightarrow> r = None"
  using assms
  by (auto simp: open_paths_def openQuickPreview_def is_navigation_def failed_to_open_def
      split: if_splits open_setting.splits option.splits)

lemma open_non_indexed_shape:
  assumes "open_non_indexed env item k b s = (effs, r)"
  shows "r = None \<Longrightarrow> filter is_navigation effs = []"
    and "r = Some s' \<Longrightarrow>
           (effs = [] \<and> openOnDoubleClick env = quickPreview \<and> quickPreviewOpen s')
           \<or> (\<exists>p. effs = [NavigateEphemeral p] \<and> s' = s)"
    and "openOnDoubleClick env = openFile \<Longrightarrow> r = None \<or> r = Some s"
  using assms
  by (auto simp: open_non_indexed_def openQuickPreview_def is_navigation_def failed_to_open_def
      split: if_splits open_setting.splits option.splits list.splits)






lemma doubleClick_openFile_state:
  assumes "openOnDoubleClick env = openFile"
  shows "snd (doubleClick env item s) = s"
proof (cases "isNonEmpty (selectedItems s)")
  case False
  then show ?thesis by (simp add: doubleClick_def)
next
  case True
  obtain k b where pb: "partition_selection env item (selectedItems s) = (k, b)"
    by (cases "partition_selection env item (selectedItems s)")
  obtain effs1 r1 where op: "open_paths env item k b s = (effs1, r1)"
    by (cases "open_paths env item k b s")
  obtain effs2 r2 where on: "open_non_indexed env item k b s = (effs2, r2)"
    by (cases "open_non_indexed env item k b s")
  from open_paths_shape(4) [OF op assms] have r1: "r1 = None" .
  from open_non_indexed_shape(3) [OF on assms] have r2: "r2 = None \<or> r2 = Some s" .
  from True pb op on r1 r2 show ?thesis
    by (auto simp: doubleClick_def split: list.splits)
qed

lemma open_paths_call:
  assumes "open_paths env item k b s = (effs, r)" and "OpenFilePaths ids \<in> set effs"
  shows "openOnDoubleClick env = openFile"
    and "openFilePaths env = Some call \<Longrightarrow> \<not> call ids \<Longrightarrow> failed_to_open \<in> set effs"
  using assms
  by (auto simp: open_paths_def openQuickPreview_def failed_to_open_def
      split: if_splits open_setting.splits option.splits)

lemma open_paths_no_ephemeral:
  assumes "open_paths env item k b s = (effs, r)"
  shows "OpenEphemeralFiles ps \<notin> set effs"
  using assms
  by (auto simp: open_paths_def openQuickPreview_def failed_to_open_def
      split: if_splits open_setting.splits option.splits)

lemma open_non_indexed_call:
  assumes "open_non_indexed env item k b s = (effs, r)" and "OpenEphemeralFiles ps \<in> set effs"
  shows "openOnDoubleClick env = openFile"
    and "openEphemeralFiles env = Some call \<Longrightarrow> \<not> call ps \<Longrightarrow> failed_to_open \<in> set effs"
    and "r = None"
  using assms
  by (auto simp: open_non_indexed_def openQuickPreview_def failed_to_open_def
      split: if_splits open_setting.splits option.splits list.splits)

lemma open_non_indexed_no_filePaths:
  assumes "open_non_indexed env item k b s = (effs, r)"
  shows "OpenFilePaths ids \<notin> set effs"
  using assms
  by (auto simp: open_non_indexed_def openQuickPreview_def failed_to_open_def
      split: if_splits open_setting.splits option.splits list.splits)

lemma open_label_no_call:
  "OpenFilePaths ids \<notin> set (open_label item)" "OpenEphemeralFiles ps \<notin> set (open_label item)"
  by (auto simp: open_label_def split: option.splits ExplorerItem.splits)

lemma doubleClick_parts:
  assumes "isNonEmpty (selectedItems s)"
    and "partition_selection env item (selectedItems s) = (k, b)"
    and "open_paths env item k b s = (effs1, r1)"
    and "open_non_indexed env item k b s = (effs2, r2)"
  shows "set (fst (doubleClick env item s)) \<subseteq>
           set effs1 \<union> set effs2 \<union> set (open_label item)
           \<union> {e. \<exists>p. e = SetSearchParams p} \<union> {e. \<exists>l. e = NavigateLocation l}"
    and "r1 = None \<Longrightarrow> set effs1 \<subseteq> set (fst (doubleClick env item s))"
    and "r1 = None \<Longrightarrow> OpenEphemeralFiles ps \<in> set (fst (doubleClick env item s))
           \<Longrightarrow> set effs2 \<subseteq> set (fst (doubleClick env item s))"
  using assms open_non_indexed_no_filePaths [OF assms(4)] open_paths_no_ephemeral [OF assms(3)]
    open_label_no_call
  by (auto simp: doubleClick_def split: list.splits option.splits)




lemma partition_selection_Nil:
  "partition_selection env item [] = (0, \<lparr>dirs = [], paths = [], locations = [], non_indexed = []\<rparr>)"
  by (simp add: partition_selection_def)

lemma open_paths_empty:
  assumes "paths b = []"
  shows "open_paths env item k b s = ([], None)"
  using assms by (simp add: open_paths_def)


lemma locations_second:
  assumes "partition_selection env item (selectedItems s) = (k, b)"
    and "paths b = []" and "dirs b = []" and "locations b \<noteq> []"
  shows "doubleClick env item s = ([NavigateLocation (loc_id (hd (locations b)))], s)"
proof -
  from assms have "selectedItems s \<noteq> []"
    by (auto simp: partition_selection_Nil)
  with assms show ?thesis
    by (cases "locations b") (simp_all add: doubleClick_def isNonEmpty_def open_paths_empty)
qed

lemma files_first:
  assumes "partition_selection env item (selectedItems s) = (k, b)"
    and "paths b \<noteq> []" and "openOnDoubleClick env = openFile" and "openFilePaths env = Some call"
  shows "take 2 (fst (doubleClick env item s))
     = [UpdateAccessTime (object_ids (paths b)), OpenFilePaths (map fp_id (paths b))]"
proof -
  from assms have ne: "selectedItems s \<noteq> []"
    by (auto simp: partition_selection_Nil)
  have op: "open_paths env item k b s
      = ([UpdateAccessTime (object_ids (paths b)), OpenFilePaths (map fp_id (paths b))]
         @ (if call (map fp_id (paths b)) then [] else [failed_to_open]), None)"
    using assms by (simp add: open_paths_def)
  obtain effs2 r2 where on: "open_non_indexed env item k b s = (effs2, r2)"
    by (cases "open_non_indexed env item k b s")
  from ne assms(1) op on show ?thesis
    by (auto simp: doubleClick_def isNonEmpty_def split: list.splits option.splits)
qed


lemma non_indexed_directory_fourth:
  assumes "partition_selection env item (selectedItems s) = (k, b)"
    and "paths b = []" and "dirs b = []" and "locations b = []"
    and "non_indexed b = [n]" and "nip_is_dir n"
  shows "doubleClick env item s = ([NavigateEphemeral (nip_path n)], s)"
proof -
  from assms have "selectedItems s \<noteq> []"
    by (auto simp: partition_selection_Nil)
  with assms show ?thesis
    by (simp add: doubleClick_def isNonEmpty_def open_paths_empty open_non_indexed_def)
qed

lemma label_last:
  assumes "partition_selection env item (selectedItems s) = (k, b)"
    and "selectedItems s \<noteq> []"
    and "paths b = []" and "dirs b = []" and "locations b = []" and "non_indexed b = []"
    and "item = Some (Label l)"
  shows "doubleClick env item s = ([NavigateLabelSearch (label_id l)], s)"
  using assms
  by (simp add: doubleClick_def isNonEmpty_def open_paths_empty open_non_indexed_def
      open_label_def)






text \<open>
  The order inside a bucket: an item that is not the clicked one is inserted before
  the last element, so a clicked item that was alone in its bucket loses the front.
  With the directories A and B selected, a double click on A navigates to B.
\<close>

lemma clicked_directory_is_displaced:
  "fst (doubleClick (example_open_env openFile True) (Some (Path (example_dir ''A'')))
         (example_selection [Path (example_dir ''A''), Path (example_dir ''B'')] None))
     = [SetSearchParams ''/photos/B/'']"
  by code_simp


lemma partition_selection_platform:
  "partition_selection (platform_succeeds env) item sel = partition_selection env item sel"
proof -
  have "partition_step (platform_succeeds env) item = partition_step env item"
    by (intro ext) (simp add: partition_step_def platform_succeeds_def split: option.splits prod.splits)
  then show ?thesis by (simp add: partition_selection_def)
qed

lemma openQuickPreview_update:
  "openQuickPreview (env\<lparr>openFilePaths := f, openEphemeralFiles := g\<rparr>) item k s
     = openQuickPreview env item k s"
  by (simp add: openQuickPreview_def split: option.splits)

lemma navigation_is_no_toast:
  "SetSearchParams p \<noteq> failed_to_open" "NavigateLocation l \<noteq> failed_to_open"
  by (simp_all add: failed_to_open_def)

lemma open_paths_platform:
  assumes "open_paths env item k b s = (effs, r)"
  shows "open_paths (platform_succeeds env) item k b s
     = (filter (\<lambda>e. e \<noteq> failed_to_open) effs, r)"
  using assms
  by (auto simp: open_paths_def openQuickPreview_update failed_to_open_def
      simp: platform_succeeds_def [of env]
      split: if_splits open_setting.splits option.splits)

lemma open_non_indexed_platform:
  assumes "open_non_indexed env item k b s = (effs, r)"
  shows "open_non_indexed (platform_succeeds env) item k b s
     = (filter (\<lambda>e. e \<noteq> failed_to_open) effs, r)"
  using assms
  by (auto simp: open_non_indexed_def openQuickPreview_update failed_to_open_def
      simp: platform_succeeds_def [of env]
      split: if_splits open_setting.splits option.splits list.splits)

lemma open_label_no_toast:
  "filter (\<lambda>e. e \<noteq> failed_to_open) (open_label item) = open_label item"
  by (auto simp: open_label_def failed_to_open_def split: option.splits ExplorerItem.splits)

lemma doubleClick_platform:
  "doubleClick (platform_succeeds env) item s
     = (filter (\<lambda>e. e \<noteq> failed_to_open) (fst (doubleClick env item s)),
        snd (doubleClick env item s))"
proof (cases "isNonEmpty (selectedItems s)")
  case False
  then show ?thesis by (simp add: doubleClick_def)
next
  case True
  obtain k b where pb: "partition_selection env item (selectedItems s) = (k, b)"
    by (cases "partition_selection env item (selectedItems s)")
  obtain effs1 r1 where op: "open_paths env item k b s = (effs1, r1)"
    by (cases "open_paths env item k b s")
  obtain effs2 r2 where on: "open_non_indexed env item k b s = (effs2, r2)"
    by (cases "open_non_indexed env item k b s")
  from True pb op on open_paths_platform [OF op] open_non_indexed_platform [OF on]
  show ?thesis
    by (auto simp: doubleClick_def partition_selection_platform open_label_no_toast
        navigation_is_no_toast split: list.splits option.splits)
qed

lemma doubleClick_filePaths_call:
  assumes "OpenFilePaths ids \<in> set (fst (doubleClick env item s))"
  shows "openOnDoubleClick env = openFile"
    and "openFilePaths env = Some call \<Longrightarrow> \<not> call ids
           \<Longrightarrow> failed_to_open \<in> set (fst (doubleClick env item s))"
proof -
  from assms have ne: "isNonEmpty (selectedItems s)"
    by (auto simp: doubleClick_def split: if_splits)
  obtain k b where pb: "partition_selection env item (selectedItems s) = (k, b)"
    by (cases "partition_selection env item (selectedItems s)")
  obtain effs1 r1 where op: "open_paths env item k b s = (effs1, r1)"
    by (cases "open_paths env item k b s")
  obtain effs2 r2 where on: "open_non_indexed env item k b s = (effs2, r2)"
    by (cases "open_non_indexed env item k b s")
  note parts = doubleClick_parts [OF ne pb op on]
  from parts(1) assms open_non_indexed_no_filePaths [OF on] open_label_no_call(1)
  have in1: "OpenFilePaths ids \<in> set effs1" by blast
  from open_paths_call(1) [OF op in1] show m: "openOnDoubleClick env = openFile" .
  from open_paths_shape(4) [OF op m] have r1: "r1 = None" .
  show "failed_to_open \<in> set (fst (doubleClick env item s))"
    if "openFilePaths env = Some call" "\<not> call ids"
    using open_paths_call(2) [OF op in1 that] parts(2) [OF r1] by blast
qed

lemma doubleClick_ephemeral_call:
  assumes "OpenEphemeralFiles ps \<in> set (fst (doubleClick env item s))"
  shows "openOnDoubleClick env = openFile"
    and "openEphemeralFiles env = Some call \<Longrightarrow> \<not> call ps
           \<Longrightarrow> failed_to_open \<in> set (fst (doubleClick env item s))"
proof -
  from assms have ne: "isNonEmpty (selectedItems s)"
    by (auto simp: doubleClick_def split: if_splits)
  obtain k b where pb: "partition_selection env item (selectedItems s) = (k, b)"
    by (cases "partition_selection env item (selectedItems s)")
  obtain effs1 r1 where op: "open_paths env item k b s = (effs1, r1)"
    by (cases "open_paths env item k b s")
  obtain effs2 r2 where on: "open_non_indexed env item k b s = (effs2, r2)"
    by (cases "open_non_indexed env item k b s")
  note parts = doubleClick_parts [OF ne pb op on]
  from parts(1) assms open_paths_no_ephemeral [OF op] open_label_no_call(2)
  have in2: "OpenEphemeralFiles ps \<in> set effs2" by blast
  from open_non_indexed_call(1) [OF on in2] show m: "openOnDoubleClick env = openFile" .
  from open_paths_shape(4) [OF op m] have r1: "r1 = None" .
  show "failed_to_open \<in> set (fst (doubleClick env item s))"
    if "openEphemeralFiles env = Some call" "\<not> call ps"
    using open_non_indexed_call(2) [OF on in2 that] parts(3) [OF r1 assms] by blast
qed

text \<open>
  C9. When a call of the platform that opens file paths or ephemeral files fails, the
  dispatcher shows the toast "Failed to open file" and leaves the whole state
  (selection, active item and the rest) as it was; apart from the toasts it makes
  the same calls and leaves the same state as with a platform that never fails.
\<close>

theorem platform_failure_is_recovered:
  assumes "doubleClick env item s = (effs, s')"
  shows "(openFilePaths env = Some call \<and> OpenFilePaths ids \<in> set effs \<and> \<not> call ids
            \<longrightarrow> failed_to_open \<in> set effs \<and> s' = s)
       \<and> (openEphemeralFiles env = Some call' \<and> OpenEphemeralFiles ps \<in> set effs \<and> \<not> call' ps
            \<longrightarrow> failed_to_open \<in> set effs \<and> s' = s)
       \<and> doubleClick (platform_succeeds env) item s
            = (filter (\<lambda>e. e \<noteq> failed_to_open) effs, s')"
proof (intro conjI impI)
  from assms have f: "fst (doubleClick env item s) = effs" "snd (doubleClick env item s) = s'"
    by simp_all
  show "doubleClick (platform_succeeds env) item s
            = (filter (\<lambda>e. e \<noteq> failed_to_open) effs, s')"
    using doubleClick_platform [of env item s] f by simp
  {
    assume h: "openFilePaths env = Some call \<and> OpenFilePaths ids \<in> set effs \<and> \<not> call ids"
    with f have i: "OpenFilePaths ids \<in> set (fst (doubleClick env item s))" by simp
    from doubleClick_filePaths_call(2) [OF i] h f show "failed_to_open \<in> set effs" by simp
    from doubleClick_openFile_state [OF doubleClick_filePaths_call(1) [OF i], of item s] f
    show "s' = s" by simp
  }
  {
    assume h: "openEphemeralFiles env = Some call' \<and> OpenEphemeralFiles ps \<in> set effs \<and> \<not> call' ps"
    with f have i: "OpenEphemeralFiles ps \<in> set (fst (doubleClick env item s))" by simp
    from doubleClick_ephemeral_call(2) [OF i] h f show "failed_to_open \<in> set effs" by simp
    from doubleClick_openFile_state [OF doubleClick_ephemeral_call(1) [OF i], of item s] f
    show "s' = s" by simp
  }
qed

theorem platform_failure_is_recovered_witness:
  "openFilePaths (example_open_env openFile False) = Some (\<lambda>_. False)
   \<and> openEphemeralFiles (example_open_env openFile False) = Some (\<lambda>_. False)
   \<and> doubleClick (example_open_env openFile False) (Some (Path (example_file 2 ''a'')))
         (example_selection [Path (example_file 2 ''a''), Path (example_dir ''2023'')]
            (Some (Path (example_file 2 ''a''))))
      = ([UpdateAccessTime [2], OpenFilePaths [2], failed_to_open,
          SetSearchParams ''/photos/2023/''],
         example_selection [Path (example_file 2 ''a''), Path (example_dir ''2023'')]
            (Some (Path (example_file 2 ''a''))))
   \<and> doubleClick (example_open_env openFile False) None
         (example_selection [NonIndexedPath \<lparr>nip_path = ''/tmp/x'', nip_is_dir = False\<rparr>] None)
      = ([OpenEphemeralFiles [''/tmp/x''], failed_to_open],
         example_selection [NonIndexedPath \<lparr>nip_path = ''/tmp/x'', nip_is_dir = False\<rparr>] None)"
proof -
  let ?env = "example_open_env openFile False"
  let ?s = "example_selection [Path (example_file 2 ''a''), Path (example_dir ''2023'')]
            (Some (Path (example_file 2 ''a'')))"
  let ?t = "example_selection [NonIndexedPath \<lparr>nip_path = ''/tmp/x'', nip_is_dir = False\<rparr>] None"
  have a: "openFilePaths ?env = Some (\<lambda>_. False)" "openEphemeralFiles ?env = Some (\<lambda>_. False)"
    by (simp_all add: example_open_env_def)
  obtain effs s' where d: "doubleClick ?env (Some (Path (example_file 2 ''a''))) ?s = (effs, s')"
    by (cases "doubleClick ?env (Some (Path (example_file 2 ''a''))) ?s")
  have e: "fst (doubleClick ?env (Some (Path (example_file 2 ''a''))) ?s)
      = [UpdateAccessTime [2], OpenFilePaths [2], failed_to_open, SetSearchParams ''/photos/2023/'']"
    by code_simp
  with d have effs: "effs = [UpdateAccessTime [2], OpenFilePaths [2], failed_to_open,
      SetSearchParams ''/photos/2023/'']" by simp
  then have i: "OpenFilePaths [2] \<in> set effs" by simp
  from platform_failure_is_recovered [OF d, where call = "\<lambda>_. False" and ids = "[2]"] a i
  have "failed_to_open \<in> set effs \<and> s' = ?s" by simp
  with d effs have c1: "doubleClick ?env (Some (Path (example_file 2 ''a''))) ?s
      = ([UpdateAccessTime [2], OpenFilePaths [2], failed_to_open,
          SetSearchParams ''/photos/2023/''], ?s)" by simp
  obtain effs2 t' where d2: "doubleClick ?env None ?t = (effs2, t')"
    by (cases "doubleClick ?env None ?t")
  have e2: "fst (doubleClick ?env None ?t) = [OpenEphemeralFiles [''/tmp/x''], failed_to_open]"
    by code_simp
  with d2 have effs2: "effs2 = [OpenEphemeralFiles [''/tmp/x''], failed_to_open]" by simp
  then have i2: "OpenEphemeralFiles [''/tmp/x''] \<in> set effs2" by simp
  from platform_failure_is_recovered [OF d2, where call' = "\<lambda>_. False" and ps = "[''/tmp/x'']"]
    a i2
  have "failed_to_open \<in> set effs2 \<and> t' = ?t" by simp
  with d2 effs2 have c2: "doubleClick ?env None ?t
      = ([OpenEphemeralFiles [''/tmp/x''], failed_to_open], ?t)" by simp
  from a c1 c2 show ?thesis by simp
qed


section \<open>Marquee drag: properties\<close>

lemma added_step_refs:
  "selectoLastColumn (added_step env s el) = selectoLastColumn s"
  by (simp add: added_step_def addSelectedItem_def split: option.splits)

lemma added_fold_refs:
  "selectoLastColumn (foldl (added_step env) s els) = selectoLastColumn s"
  by (induction els arbitrary: s) (simp_all add: added_step_refs)

lemma removed_step_refs:
  "selectoLastColumn (fst (removed_step env acc el)) = selectoLastColumn (fst acc)"
  by (cases acc)
    (simp add: removed_step_def removeSelectedItem_def split: option.splits grid_id.splits)

lemma removed_fold_refs:
  "selectoLastColumn (fst (foldl (removed_step env) acc els)) = selectoLastColumn (fst acc)"
  by (induction els arbitrary: acc) (simp_all add: removed_step_refs)

lemma hit_phase_refs:
  "selectoLastColumn (fst (hit_phase env e s)) = selectoLastColumn s"
  by (simp add: hit_phase_def removed_fold_refs added_fold_refs)

lemma js_set_of_empty_iff: "js_set_of xs = [] \<longleftrightarrow> xs = []"
proof (cases xs)
  case Nil
  then show ?thesis by (simp add: js_set_of_def)
next
  case (Cons a list)
  have h: "acc \<noteq> [] \<Longrightarrow> foldl (\<lambda>acc x. set_add x acc) acc ys \<noteq> []"
    for acc :: "'a list" and ys
    by (induction ys arbitrary: acc) (simp_all add: set_add_def)
  have "set_add a [] = [a]" by (simp add: set_add_def)
  with h [of "[a]" list] Cons show ?thesis by (simp add: js_set_of_def)
qed

lemma drag_items_nonempty:
  assumes "drag_columns env e = [column]"
  shows "sort_key gi_row (drag_items env e) \<noteq> []"
proof -
  from assms have "drag_items env e \<noteq> []"
    by (auto simp: drag_columns_def js_set_of_def)
  then have "length (sort_key gi_row (drag_items env e)) \<noteq> 0" by simp
  then show ?thesis by fastforce
qed

lemma synth_fold_add:
  assumes "allowMultiSelect env" and "\<not> inputEvent_shiftKey e" and "inDragArea e"
  shows "set (selectedItems (fst (foldl (synth_step env e) acc indices)))
     = set (selectedItems (fst acc)) \<union> {item. \<exists>i \<in> set indices. items_at (items env) i = Some item}"
  using assms
proof (induction indices arbitrary: acc)
  case Nil
  then show ?case by simp
next
  case (Cons i indices)
  obtain s u where acc: "acc = (s, u)" by (cases acc)
  have "set (selectedItems (fst (synth_step env e acc i)))
      = set (selectedItems (fst acc)) \<union> {item. items_at (items env) i = Some item}"
    using Cons.prems acc
    by (auto simp: synth_step_def addSelectedItem_def set_add_def split: option.splits)
  with Cons.IH [OF Cons.prems, of "synth_step env e acc i"] show ?case by auto
qed

lemma synth_fold_remove:
  assumes "\<not> inputEvent_shiftKey e" and "\<not> inDragArea e"
  shows "set (selectedItems (fst (foldl (synth_step env e) acc indices)))
     = set (selectedItems (fst acc)) - {item. \<exists>i \<in> set indices. items_at (items env) i = Some item}"
  using assms
proof (induction indices arbitrary: acc)
  case Nil
  then show ?case by simp
next
  case (Cons i indices)
  obtain s u where acc: "acc = (s, u)" by (cases acc)
  have "set (selectedItems (fst (synth_step env e acc i)))
      = set (selectedItems (fst acc)) - {item. items_at (items env) i = Some item}"
    using Cons.prems acc
    by (auto simp: synth_step_def removeSelectedItem_def split: option.splits)
  with Cons.IH [OF Cons.prems, of "synth_step env e acc i"] show ?case by auto
qed

lemma upto_shift_down:
  fixes n :: int
  shows "map (\<lambda>i. n - i) [0..n - 1] = rev [1..n]"
proof (rule nth_equalityI)
  show "length (map (\<lambda>i. n - i) [0..n - 1]) = length (rev [1..n])" by simp
next
  fix i assume "i < length (map (\<lambda>i. n - i) [0..n - 1])"
  then have i: "int i < n" by simp
  then have "rev [1..n] ! i = [1..n] ! (nat n - Suc i)"
    by (simp add: rev_nth)
  also from i have "\<dots> = 1 + int (nat n - Suc i)" by (simp add: nth_upto)
  also from i have "\<dots> = n - int i" by simp
  finally show "map (\<lambda>i. n - i) [0..n - 1] ! i = rev [1..n] ! i"
    using i by (simp add: nth_upto)
qed

lemma upto_shift_up:
  fixes n :: int
  shows "map (\<lambda>i. i + 1) [0..n - 1] = [1..n]"
proof (rule nth_equalityI)
  show "length (map (\<lambda>i. i + 1) [0..n - 1]) = length [1..n]" by simp
next
  fix i assume "i < length (map (\<lambda>i. i + 1) [0..n - 1])"
  then have i: "int i < n" by simp
  then show "map (\<lambda>i. i + 1) [0..n - 1] ! i = [1..n] ! i"
    by (simp add: nth_upto)
qed

lemma drag_indices_list:
  assumes "drag_indices env dy firstIndex dragHeight = Inr indices"
  shows "indices = spec_drag_indices dy firstIndex
           (itemsInDragCount (fl env) dragHeight (grid_gap_y env)
              (grid_virtualItemSize_height env))
           (grid_columnCount env)"
proof -
  define n where "n = itemsInDragCount (fl env) dragHeight (grid_gap_y env)
    (grid_virtualItemSize_height env)"
  define c where "c = grid_columnCount env"
  show ?thesis
  proof (cases "dy = DragDown")
    case True
    with assms have "indices = map (\<lambda>i. firstIndex - (n - i) * c) [0..n - 1]"
      by (simp add: drag_indices_def Let_def n_def c_def split: if_splits)
    also have "\<dots> = map (\<lambda>k. firstIndex - k * c) (map (\<lambda>i. n - i) [0..n - 1])"
      by (simp add: comp_def)
    also have "\<dots> = map (\<lambda>k. firstIndex - k * c) (rev [1..n])"
      by (simp only: upto_shift_down)
    finally show ?thesis using True by (simp add: spec_drag_indices_def n_def c_def)
  next
    case False
    with assms have "indices = map (\<lambda>i. firstIndex + (i + 1) * c) [0..n - 1]"
      by (simp add: drag_indices_def Let_def n_def c_def split: if_splits)
    also have "\<dots> = map (\<lambda>k. firstIndex + k * c) (map (\<lambda>i. i + 1) [0..n - 1])"
      by (simp add: comp_def)
    also have "\<dots> = map (\<lambda>k. firstIndex + k * c) [1..n]"
      by (simp only: upto_shift_up)
    finally show ?thesis using False by (simp add: spec_drag_indices_def n_def c_def)
  qed
qed

lemma drag_indices_set:
  assumes "drag_indices env dy firstIndex dragHeight = Inr indices"
  shows "set indices
     = (\<lambda>k. firstIndex + (if dy = DragDown then - k else k) * grid_columnCount env)
         ` {1..itemsInDragCount (fl env) dragHeight (grid_gap_y env)
                 (grid_virtualItemSize_height env)}"
proof -
  define n where "n = itemsInDragCount (fl env) dragHeight (grid_gap_y env)
    (grid_virtualItemSize_height env)"
  define c where "c = grid_columnCount env"
  show ?thesis
  proof (cases "dy = DragDown")
    case True
    with assms have ind: "indices = map (\<lambda>i. firstIndex - (n - i) * c) [0..n - 1]"
      by (simp add: drag_indices_def Let_def n_def c_def split: if_splits)
    have "(\<lambda>i. n - i) ` {0..n - 1} = {1..n}"
    proof (intro equalityI subsetI)
      fix k assume "k \<in> (\<lambda>i. n - i) ` {0..n - 1}"
      then show "k \<in> {1..n}" by auto
    next
      fix k assume "k \<in> {1..n}"
      then have "k = n - (n - k)" and "n - k \<in> {0..n - 1}" by auto
      then show "k \<in> (\<lambda>i. n - i) ` {0..n - 1}" by blast
    qed
    then have "(\<lambda>k. firstIndex - k * c) ` {1..n}
        = (\<lambda>k. firstIndex - k * c) ` (\<lambda>i. n - i) ` {0..n - 1}" by simp
    also have "\<dots> = (\<lambda>i. firstIndex - (n - i) * c) ` {0..n - 1}"
      by (simp only: image_image)
    finally show ?thesis using ind True by (simp add: n_def c_def)
  next
    case False
    with assms have ind: "indices = map (\<lambda>i. firstIndex + (i + 1) * c) [0..n - 1]"
      by (simp add: drag_indices_def Let_def n_def c_def split: if_splits)
    have "(\<lambda>i. i + 1) ` {0..n - 1} = {1..n}"
    proof (intro equalityI subsetI)
      fix k assume "k \<in> (\<lambda>i. i + 1) ` {0..n - 1}"
      then show "k \<in> {1..n}" by auto
    next
      fix k assume "k \<in> {1..n}"
      then have "k = (k - 1) + 1" and "k - 1 \<in> {0..n - 1}" by auto
      then show "k \<in> (\<lambda>i. i + 1) ` {0..n - 1}" by blast
    qed
    then have "(\<lambda>k. firstIndex + k * c) ` {1..n}
        = (\<lambda>k. firstIndex + k * c) ` (\<lambda>i. i + 1) ` {0..n - 1}" by simp
    also have "\<dots> = (\<lambda>i. firstIndex + (i + 1) * c) ` {0..n - 1}"
      by (simp only: image_image)
    finally show ?thesis using ind False by (simp add: n_def c_def)
  qed
qed

lemma column_bookkeeping_selected:
  "selectedItems (column_bookkeeping e column s) = selectedItems s"
  by (simp add: column_bookkeeping_def Let_def)

lemma flush_unselected_selected:
  "selectedItems (flush_unselected acc) = selectedItems (fst acc)"
  by (cases acc) (simp add: flush_unselected_def)

lemma itemsInDragCount_rounds:
  fixes rnd :: "rat \<Rightarrow> rat" and dragHeight gap_y height :: rat
  defines "q \<equiv> rnd (rnd (dragHeight - gap_y) / rnd (height + gap_y))"
  shows "(q > 1 \<longrightarrow> of_int (itemsInDragCount rnd dragHeight gap_y height) - 1 < q
                  \<and> q \<le> of_int (itemsInDragCount rnd dragHeight gap_y height))
       \<and> (q \<le> 1 \<longrightarrow> \<bar>of_int (itemsInDragCount rnd dragHeight gap_y height) - q\<bar> \<le> 1 / 2)"
proof (cases "q > 1")
  case True
  then have "itemsInDragCount rnd dragHeight gap_y height = \<lceil>q\<rceil>"
    by (simp add: itemsInDragCount_def q_def Let_def)
  with True show ?thesis by (simp add: ceiling_correct)
next
  case False
  then have "itemsInDragCount rnd dragHeight gap_y height = round q"
    by (simp add: itemsInDragCount_def q_def Let_def)
  with False of_int_round_abs_le [of q] show ?thesis by simp
qed

text \<open>
  The count follows the arithmetic on doubles. With items of height 99.9 and gap 1,
  a drag started at 99.9 and a first item whose top is at 403.6, the quotient is
  the double just above 3 and the count is 4; on the exact quotient of the same
  doubles it would be 3.
\<close>

lemma itemsInDragCount_on_doubles:
  "itemsInDragCount binary64
     \<bar>binary64 (binary64 (999 / 10) - binary64 (4036 / 10))\<bar> 1 (binary64 (999 / 10)) = 4
   \<and> itemsInDragCount (\<lambda>x. x)
     \<bar>binary64 (999 / 10) - binary64 (4036 / 10)\<bar> 1 (binary64 (999 / 10)) = 3"
  by code_simp

lemma drag_column_synthesis_aux:
  fixes env :: "'a view_env" and e :: select_event and s :: "'a grid_state"
  defines "sortedItems \<equiv> sort_key gi_row (drag_items env e)"
  defines "firstItem \<equiv>
    (if dragDirection_y e = DragDown then hd sortedItems else last sortedItems)"
  defines "edge \<equiv>
    fl env ((if dragDirection_y e = DragDown then rect_top (gi_rect firstItem)
             else rect_bottom (gi_rect firstItem)) + viewRectTop env)"
  defines "n \<equiv> itemsInDragCount (fl env) \<bar>fl env (dragStart_y e - edge)\<bar> (grid_gap_y env)
                 (grid_virtualItemSize_height env)"
  defines "visited \<equiv> spec_drag_indices (dragDirection_y e) (gi_index firstItem) n
                 (grid_columnCount env)"
  defines "swept \<equiv> {item. \<exists>k \<in> {1..n}.
      items_at (items env)
        (gi_index firstItem
           + (if dragDirection_y e = DragDown then - k else k) * grid_columnCount env)
      = Some item}"
  assumes multi: "allowMultiSelect env"
    and one_column: "drag_columns env e = [column]"
    and gate: "Some column \<noteq> selectoLastColumn s \<or> \<not> inDragArea e"
    and crossed: "if dragDirection_y e = DragDown then dragStart_y e < edge
                  else dragStart_y e > edge"
    and array: "fl env (grid_virtualItemSize_height env + grid_gap_y env) \<noteq> 0"
      "0 \<le> n" "n \<le> 4294967295"
  shows "\<exists>s'. onSelect_mousemove env e s = Inr s'
           \<and> selectedItems s'
               = selectedItems (fst (foldl (synth_step env e) (hit_phase env e s) visited))
           \<and> (\<not> inputEvent_shiftKey e \<longrightarrow>
                set (selectedItems s')
                  = (if inDragArea e
                     then set (selectedItems (fst (hit_phase env e s))) \<union> swept
                     else set (selectedItems (fst (hit_phase env e s))) - swept))"
proof -
  obtain s2 u where hp: "hit_phase env e s = (s2, u)" by (cases "hit_phase env e s")
  from hit_phase_refs [of env e s] hp have lc: "selectoLastColumn s2 = selectoLastColumn s"
    by simp
  from drag_items_nonempty [OF one_column] obtain x xs where sx: "sortedItems = x # xs"
    unfolding sortedItems_def by (cases "sort_key gi_row (drag_items env e)") auto
  define dy where "dy = dragDirection_y e"
  define indices where "indices =
    map (\<lambda>i. let index = (if dy = DragDown then n - i else i + 1)
              in gi_index firstItem + (if dy = DragDown then - index else index)
                   * grid_columnCount env) [0..n - 1]"
  have di: "drag_indices env dy (gi_index firstItem) \<bar>fl env (dragStart_y e - edge)\<bar>
      = Inr indices"
    using array unfolding indices_def n_def by (simp add: drag_indices_def Let_def)
  have vis: "indices = visited"
    unfolding visited_def n_def dy_def [symmetric] by (rule drag_indices_list [OF di])
  have sp: "synth_phase env e sortedItems (s2, u)
      = Inr (foldl (synth_step env e) (s2, u) indices)"
    using sx crossed di
    unfolding firstItem_def edge_def dy_def
    by (simp add: synth_phase_def Let_def split: if_splits)
  obtain s3 u' where f: "foldl (synth_step env e) (s2, u) indices = (s3, u')"
    by (cases "foldl (synth_step env e) (s2, u) indices")
  have res: "onSelect_mousemove env e s
      = Inr (flush_unselected (column_bookkeeping e column s3, u'))"
    using hp one_column gate lc sp f
    unfolding sortedItems_def
    by (auto simp: onSelect_mousemove_def)
  have sel: "selectedItems (flush_unselected (column_bookkeeping e column s3, u'))
      = selectedItems s3"
    by (simp add: flush_unselected_selected column_bookkeeping_selected)
  have fold: "selectedItems s3
      = selectedItems (fst (foldl (synth_step env e) (hit_phase env e s) visited))"
    using f hp vis by simp
  have sw: "{item. \<exists>i \<in> set indices. items_at (items env) i = Some item} = swept"
    unfolding swept_def drag_indices_set [OF di] n_def dy_def by auto
  have sets: "set (selectedItems s3)
      = (if inDragArea e then set (selectedItems s2) \<union> swept
         else set (selectedItems s2) - swept)" if no_shift: "\<not> inputEvent_shiftKey e"
  proof (cases "inDragArea e")
    case True
    from synth_fold_add [OF multi no_shift True, of "(s2, u)" indices] f sw True
    show ?thesis by simp
  next
    case False
    from synth_fold_remove [OF no_shift False, of env "(s2, u)" indices] f sw False
    show ?thesis by simp
  qed
  from res sel fold sets hp show ?thesis by simp
qed

text \<open>
  C1, as the code has it. On a drag tick whose targets lie in exactly one column, when
  that column is not the last touched column or the pointer is horizontally outside
  the first element, and the start of the drag lies beyond the first item (above its
  top for a drag downwards, below its bottom for a drag upwards), the handler takes
  n = (dragHeight - gap) / (height + gap), computed on doubles, rounded up above 1
  and to the nearest integer otherwise, and applies the step of one implied item to
  the indices
  firstItem.index - k * columnCount (downwards) or + k * columnCount (upwards) for
  k = 1, ..., n, provided n is a valid array length. Without shift these items are
  added to the selection when the pointer is inside the column and removed otherwise.
  Every sum, difference and quotient of coordinates is rounded by \<open>fl\<close>, whatever
  that rounding is.
\<close>

theorem drag_column_synthesis:
  assumes "allowMultiSelect env"
    and "drag_columns env e = [column]"
    and "Some column \<noteq> selectoLastColumn s \<or> \<not> inDragArea e"
    and "sort_key gi_row (drag_items env e) = sortedItems"
    and "firstItem = (if dragDirection_y e = DragDown then hd sortedItems else last sortedItems)"
    and "edge = fl env ((if dragDirection_y e = DragDown then rect_top (gi_rect firstItem)
                         else rect_bottom (gi_rect firstItem)) + viewRectTop env)"
    and "if dragDirection_y e = DragDown then dragStart_y e < edge else dragStart_y e > edge"
    and "dragHeight = \<bar>fl env (dragStart_y e - edge)\<bar>"
    and "q = fl env (fl env (dragHeight - grid_gap_y env)
                     / fl env (grid_virtualItemSize_height env + grid_gap_y env))"
    and "fl env (grid_virtualItemSize_height env + grid_gap_y env) \<noteq> 0"
    and "n = itemsInDragCount (fl env) dragHeight (grid_gap_y env)
               (grid_virtualItemSize_height env)"
    and "0 \<le> n" and "n \<le> 4294967295"
  shows "(q > 1 \<longrightarrow> of_int n - 1 < q \<and> q \<le> of_int n)
       \<and> (q \<le> 1 \<longrightarrow> \<bar>of_int n - q\<bar> \<le> 1 / 2)
       \<and> (\<exists>s'. onSelect_mousemove env e s = Inr s'
              \<and> selectedItems s'
                  = selectedItems (fst (foldl (synth_step env e) (hit_phase env e s)
                      (spec_drag_indices (dragDirection_y e) (gi_index firstItem) n
                         (grid_columnCount env))))
              \<and> (\<not> inputEvent_shiftKey e \<longrightarrow>
                   set (selectedItems s')
                     = (if inDragArea e
                        then set (selectedItems (fst (hit_phase env e s)))
                             \<union> {item. \<exists>k \<in> {1..n}.
                                   items_at (items env)
                                     (gi_index firstItem
                                        + (if dragDirection_y e = DragDown then - k else k)
                                          * grid_columnCount env) = Some item}
                        else set (selectedItems (fst (hit_phase env e s)))
                             - {item. \<exists>k \<in> {1..n}.
                                   items_at (items env)
                                     (gi_index firstItem
                                        + (if dragDirection_y e = DragDown then - k else k)
                                          * grid_columnCount env) = Some item})))"
proof -
  have rounds: "(q > 1 \<longrightarrow> of_int n - 1 < q \<and> q \<le> of_int n)
       \<and> (q \<le> 1 \<longrightarrow> \<bar>of_int n - q\<bar> \<le> 1 / 2)"
    unfolding assms(11) assms(9) by (rule itemsInDragCount_rounds)
  have "\<exists>s'. onSelect_mousemove env e s = Inr s'
              \<and> selectedItems s'
                  = selectedItems (fst (foldl (synth_step env e) (hit_phase env e s)
                      (spec_drag_indices (dragDirection_y e) (gi_index firstItem) n
                         (grid_columnCount env))))
              \<and> (\<not> inputEvent_shiftKey e \<longrightarrow>
                   set (selectedItems s')
                     = (if inDragArea e
                        then set (selectedItems (fst (hit_phase env e s)))
                             \<union> {item. \<exists>k \<in> {1..n}.
                                   items_at (items env)
                                     (gi_index firstItem
                                        + (if dragDirection_y e = DragDown then - k else k)
                                          * grid_columnCount env) = Some item}
                        else set (selectedItems (fst (hit_phase env e s)))
                             - {item. \<exists>k \<in> {1..n}.
                                   items_at (items env)
                                     (gi_index firstItem
                                        + (if dragDirection_y e = DragDown then - k else k)
                                          * grid_columnCount env) = Some item}))"
    using assms(1,2,3,7,10,12,13)
    unfolding assms(11) assms(8) assms(6) assms(5) assms(4) [symmetric]
    by (rule drag_column_synthesis_aux)
  with rounds show ?thesis by blast
qed

theorem drag_column_synthesis_witness:
  "drag_columns (example_env True 4 24 [example_element 4 17]) example_drag = [1]
   \<and> selectoLastColumn (example_state [] None (Some [])) = None
   \<and> dragDirection_y example_drag = DragDown
   \<and> dragStart_y example_drag = 150
   \<and> inDragArea example_drag
   \<and> itemsInDragCount binary64 290 10 100 = 3
   \<and> (\<exists>s'. onSelect_mousemove (example_env True 4 24 [example_element 4 17]) example_drag
              (example_state [] None (Some [])) = Inr s'
          \<and> set (selectedItems s') = {1 * 4 + 1, 2 * 4 + 1, 3 * 4 + 1, 4 * 4 + 1})"
proof -
  define env :: "nat view_env" where "env = example_env True 4 24 [example_element 4 17]"
  define s :: "nat grid_state" where "s = example_state [] None (Some [])"
  have "\<exists>g. grid_getItem env 17 = Some g \<and> gi_index g = 17 \<and> gi_row g = 4
      \<and> rect_top (gi_rect g) = 440"
    by (simp add: env_def example_env_def layout_getItem_def)
  then obtain g where g: "grid_getItem env 17 = Some g" "gi_index g = 17" "gi_row g = 4"
    "rect_top (gi_rect g) = 440"
    by blast
  have items: "drag_items env example_drag = [g]"
    using g(1)
    by (simp add: drag_items_def example_drag_def example_element_def getElementItem_def
        getElementIndex_def map_filter_simps)
  have a1: "allowMultiSelect env" by (simp add: env_def example_env_def)
  have a2: "drag_columns env example_drag = [1]" unfolding env_def by code_simp
  have lc: "selectoLastColumn s = None" by (simp add: s_def example_state_def)
  then have a3: "Some 1 \<noteq> selectoLastColumn s \<or> \<not> inDragArea example_drag" by simp
  have a4: "sort_key gi_row (drag_items env example_drag) = [g]" by (simp add: items)
  have dy: "dragDirection_y example_drag = DragDown" by code_simp
  have a5: "g = (if dragDirection_y example_drag = DragDown then hd [g] else last [g])"
    by simp
  have vt: "viewRectTop env = 0" "grid_gap_y env = 10" "grid_virtualItemSize_height env = 100"
    "grid_columnCount env = 4" "items env = Some [0..<24]" "fl env = binary64"
    by (simp_all add: env_def example_env_def)
  have exact: "binary64 440 = 440" "binary64 (- 290) = - 290" "binary64 110 = 110"
    by code_simp+
  have a6: "440 = fl env ((if dragDirection_y example_drag = DragDown then rect_top (gi_rect g)
                 else rect_bottom (gi_rect g)) + viewRectTop env)"
    by (simp add: dy g vt exact)
  have ds: "dragStart_y example_drag = 150" by code_simp
  have a7: "if dragDirection_y example_drag = DragDown then dragStart_y example_drag < 440
            else dragStart_y example_drag > 440"
    by (simp add: dy ds)
  have a8: "290 = \<bar>fl env (dragStart_y example_drag - 440)\<bar>" by (simp add: ds vt exact)
  have a9: "fl env (fl env (290 - grid_gap_y env)
                    / fl env (grid_virtualItemSize_height env + grid_gap_y env))
            = fl env (fl env (290 - grid_gap_y env)
                    / fl env (grid_virtualItemSize_height env + grid_gap_y env))"
    by (rule refl)
  have a10: "fl env (grid_virtualItemSize_height env + grid_gap_y env) \<noteq> 0"
    by (simp add: vt exact)
  have cnt: "itemsInDragCount binary64 290 10 100 = 3" by code_simp
  then have a11: "3 = itemsInDragCount (fl env) 290 (grid_gap_y env)
                        (grid_virtualItemSize_height env)"
    by (simp add: vt)
  have a12: "(0::int) \<le> 3" "(3::int) \<le> 4294967295" by simp_all
  have a13: "\<not> inputEvent_shiftKey example_drag" by (simp add: example_drag_def)
  have ida: "inDragArea example_drag" by code_simp
  have hit: "selectedItems (fst (hit_phase env example_drag s)) = [17]"
    unfolding env_def s_def by code_simp
  have r: "{1..3::int} = {1, 2, 3}" by auto
  have swept: "{item. \<exists>k \<in> {1..3}. items_at (items env)
        (gi_index g + (if dragDirection_y example_drag = DragDown then - k else k)
           * grid_columnCount env) = Some item} = {5, 9, 13}"
    unfolding r by (auto simp: dy g vt items_at_def)
  from drag_column_synthesis [OF a1 a2 a3 a4 a5 a6 a7 a8 a9 a10 a11 a12, THEN conjunct2,
    THEN conjunct2]
  obtain s' where s': "onSelect_mousemove env example_drag s = Inr s'"
    "set (selectedItems s') = {17} \<union> {5, 9, 13}"
    unfolding swept hit using ida a13 by auto
  from s' have "\<exists>s'. onSelect_mousemove env example_drag s = Inr s'
      \<and> set (selectedItems s') = {1 * 4 + 1, 2 * 4 + 1, 3 * 4 + 1, 4 * 4 + 1}"
    by auto
  with a2 lc dy ds ida cnt show ?thesis unfolding env_def s_def by blast
qed

text \<open>
  C1 as stated fails: the same drag in column 1, begun with column 1 recorded as the
  last touched column, selects item 17 only, although the start of the drag lies
  three rows above item 17.
\<close>

theorem drag_in_last_column_counterexample:
  "drag_columns (example_env True 4 24 [example_element 4 17]) example_drag = [1]
   \<and> dragStart_y example_drag < 440
   \<and> itemsInDragCount binary64 290 10 100 = 3
   \<and> onSelect_mousemove (example_env True 4 24 [example_element 4 17]) example_drag
        ((example_state [] None (Some []))
           \<lparr>selectoFirstColumn := Some 1, selectoLastColumn := Some 1\<rparr>)
      = Inr ((example_state [17] None (Some []))
               \<lparr>selectoFirstColumn := Some 1, selectoLastColumn := Some 1\<rparr>)"
  by code_simp

end
